theory Spec2Isabelle
  imports Complex_Main
begin

section \<open>Strings of the program\<close>

text \<open>
  A JavaScript string is a sequence of UTF-16 code units. The development covers the
  strings whose code units are all at most U+00FF: a \<^typ>\<open>char\<close> is one such code unit
  (its number is \<^term>\<open>of_char c :: nat\<close>), a \<^typ>\<open>string\<close> is a JavaScript string over
  them, and \<^term>\<open>length s\<close> is its \<^verbatim>\<open>.length\<close>. On this range every built-in used by
  the program (\<^verbatim>\<open>trim\<close>, \<^verbatim>\<open>startsWith\<close>, \<^verbatim>\<open>includes\<close>, \<^verbatim>\<open>toLowerCase\<close>,
  \<^verbatim>\<open>substring\<close>, the regular expressions) is modelled in full.
\<close>

definition code :: "char \<Rightarrow> nat" where
  "code c = of_char c"

definition between :: "char \<Rightarrow> char \<Rightarrow> char \<Rightarrow> bool" where
  \<comment> \<open>a character range \<^verbatim>\<open>lo-hi\<close> of a regular expression's class\<close>
  "between lo hi c = (code lo \<le> code c \<and> code c \<le> code hi)"

definition isWhiteSpace :: "char \<Rightarrow> bool" where
  \<comment> \<open>ECMAScript WhiteSpace and LineTerminator below U+0100: TAB, LF, VT, FF, CR, SP, NBSP;
      what \<^verbatim>\<open>trim\<close> strips and \<^verbatim>\<open>\s\<close> matches\<close>
  "isWhiteSpace c = ((9 \<le> code c \<and> code c \<le> 13) \<or> code c = 32 \<or> code c = 160)"

definition trim :: "string \<Rightarrow> string" where
  "trim s = rev (dropWhile isWhiteSpace (rev (dropWhile isWhiteSpace s)))"

definition startsWith :: "string \<Rightarrow> string \<Rightarrow> bool" where
  "startsWith s p = (take (length p) s = p)"

fun includes_str :: "string \<Rightarrow> string \<Rightarrow> bool" where
  "includes_str [] p = (p = [])"
| "includes_str (x # xs) p = (startsWith (x # xs) p \<or> includes_str xs p)"

definition toLowerChar :: "char \<Rightarrow> char" where
  \<comment> \<open>the upper-case letters below U+0100 are A-Z and U+00C0-U+00DE without U+00D7;
      each maps to the code unit 32 above it\<close>
  "toLowerChar c =
     (if (65 \<le> code c \<and> code c \<le> 90) \<or> (192 \<le> code c \<and> code c \<le> 222 \<and> code c \<noteq> 215)
      then char_of (code c + 32) else c)"

definition toLowerCase :: "string \<Rightarrow> string" where
  "toLowerCase s = map toLowerChar s"

definition toInteger :: "rat \<Rightarrow> int" where
  \<comment> \<open>ToIntegerOrInfinity on a finite number: truncation toward zero\<close>
  "toInteger x = (if x < 0 then \<lceil>x\<rceil> else \<lfloor>x\<rfloor>)"

definition substring :: "string \<Rightarrow> rat \<Rightarrow> rat option \<Rightarrow> string" where
  \<comment> \<open>\<^verbatim>\<open>s.substring(start, end)\<close>: both indices are truncated, clamped to the string and
      swapped when out of order; a missing end is the length\<close>
  "substring s start end =
     (let len = int (length s);
          intStart = toInteger start;
          intEnd = (case end of None \<Rightarrow> len | Some e \<Rightarrow> toInteger e);
          finalStart = min (max intStart 0) len;
          finalEnd = min (max intEnd 0) len;
          from = min finalStart finalEnd;
          to = max finalStart finalEnd
      in take (nat (to - from)) (drop (nat from) s))"

subsection \<open>Regular expressions\<close>

text \<open>
  The program's regular expressions are anchored at both ends (\<^verbatim>\<open>^...$\<close>, no flags) and are
  sequences of literal characters and of repeated character classes (\<^verbatim>\<open>[...]+\<close>,
  \<^verbatim>\<open>[...]{m,n}\<close>). \<^verbatim>\<open>test\<close> succeeds when some choice of the repetition counts consumes
  the whole string.
\<close>

datatype atom =
    Lit char
  | Class "char \<Rightarrow> bool" nat "nat option"

fun test :: "atom list \<Rightarrow> string \<Rightarrow> bool" where
  "test [] s = (s = [])"
| "test (Lit c # r) s = (case s of [] \<Rightarrow> False | x # xs \<Rightarrow> x = c \<and> test r xs)"
| "test (Class p lo hi # r) s =
     (let longest = length (takeWhile p s);
          top = (case hi of None \<Rightarrow> longest | Some h \<Rightarrow> min h longest)
      in list_ex (\<lambda>k. test r (drop k s)) [lo ..< Suc top])"

definition hexDigit :: "char \<Rightarrow> bool" where
  \<comment> \<open>\<^verbatim>\<open>[a-fA-F0-9]\<close>\<close>
  "hexDigit c = (between CHR ''a'' CHR ''f'' c \<or> between CHR ''A'' CHR ''F'' c \<or> between CHR ''0'' CHR ''9'' c)"

definition nameChar :: "char \<Rightarrow> bool" where
  \<comment> \<open>\<^verbatim>\<open>[a-zA-Z0-9_-]\<close>\<close>
  "nameChar c = (between CHR ''a'' CHR ''z'' c \<or> between CHR ''A'' CHR ''Z'' c \<or> between CHR ''0'' CHR ''9'' c
                 \<or> c = CHR ''_'' \<or> c = CHR ''-'')"

definition notSpaceAt :: "char \<Rightarrow> bool" where
  \<comment> \<open>\<^verbatim>\<open>[^\s@]\<close>\<close>
  "notSpaceAt c = (\<not> isWhiteSpace c \<and> c \<noteq> CHR ''@'')"

definition hexRegex :: "atom list" where
  \<comment> \<open>\<^verbatim>\<open>/^0x[a-fA-F0-9]{1,64}$/\<close>\<close>
  "hexRegex = [Lit CHR ''0'', Lit CHR ''x'', Class hexDigit 1 (Some 64)]"

definition namedRegex :: "atom list" where
  \<comment> \<open>\<^verbatim>\<open>/^[a-zA-Z0-9_-]+\.apt$/\<close>\<close>
  "namedRegex = [Class nameChar 1 None, Lit CHR ''.'', Lit CHR ''a'', Lit CHR ''p'', Lit CHR ''t'']"

definition emailRegex :: "atom list" where
  \<comment> \<open>\<^verbatim>\<open>/^[^\s@]+@[^\s@]+\.[^\s@]+$/\<close>\<close>
  "emailRegex = [Class notSpaceAt 1 None, Lit CHR ''@'', Class notSpaceAt 1 None, Lit CHR ''.'',
                 Class notSpaceAt 1 None]"

section \<open>Validators\<close>

definition isValidEmail :: "string \<Rightarrow> bool" where
  "isValidEmail email = test emailRegex email"

definition isValidWallet :: "string \<Rightarrow> bool" where
  \<comment> \<open>auth module; \<^verbatim>\<open>!address\<close> holds of the empty string only\<close>
  "isValidWallet address =
     (if address = [] then False
      else let trimmed = trim address in
        if startsWith trimmed ''0x'' then test hexRegex trimmed
        else if includes_str trimmed ''.apt'' then test namedRegex trimmed
        else 6 \<le> length trimmed \<and> length trimmed \<le> 100)"

definition isValidWalletAddress :: "string \<Rightarrow> bool" where
  \<comment> \<open>URL utilities module\<close>
  "isValidWalletAddress address =
     (if address = [] then False
      else let trimmed = trim address in
        if startsWith trimmed ''0x'' then test hexRegex trimmed
        else if includes_str trimmed ''.apt'' then test namedRegex trimmed
        else 6 \<le> length trimmed \<and> length trimmed \<le> 100)"

definition isValidCredentialId :: "string \<Rightarrow> bool" where
  "isValidCredentialId id' =
     (if id' = [] then False
      else let trimmed = trim id' in 0 < length trimmed \<and> length trimmed \<le> 100)"

text \<open>
  The contract of the two wallet validators as the specification words it: trim; the empty
  input is invalid; then three forms checked in order.
\<close>

definition hexForm :: "string \<Rightarrow> bool" where
  \<comment> \<open>starts with 0x, followed by 1 to 64 hexadecimal characters\<close>
  "hexForm t = (take 2 t = ''0x'' \<and> 1 \<le> length (drop 2 t) \<and> length (drop 2 t) \<le> 64
                \<and> list_all hexDigit (drop 2 t))"

definition namedForm :: "string \<Rightarrow> bool" where
  \<comment> \<open>one or more of letters, digits, underscore and hyphen, then .apt\<close>
  "namedForm t = (4 < length t \<and> drop (length t - 4) t = ''.apt''
                  \<and> list_all nameChar (take (length t - 4) t))"

definition wallet_contract :: "string \<Rightarrow> bool" where
  "wallet_contract s =
     (s \<noteq> [] \<and>
      (let t = trim s in
         if startsWith t ''0x'' then hexForm t
         else if includes_str t ''.apt'' then namedForm t
         else 6 \<le> length t \<and> length t \<le> 100))"

section \<open>Display of a URL\<close>

definition sanitizeUrlForDisplay :: "string \<Rightarrow> int \<Rightarrow> string" where
  \<comment> \<open>\<^verbatim>\<open>maxLength\<close> ranges over the integers; \<^verbatim>\<open>maxLength / 2\<close> is the exact quotient\<close>
  "sanitizeUrlForDisplay url maxLength =
     (if int (length url) \<le> maxLength then url
      else let start = substring url 0 (Some (of_int maxLength / 2));
               end = substring url (of_int (int (length url)) - of_int maxLength / 2) None
           in start @ ''...'' @ end)"

section \<open>Errors\<close>

text \<open>
  Every \<^verbatim>\<open>throw new Error(...)\<close> of the program is a value of \<open>error\<close>, named as the
  specification names the failure:
  \<^item> \<open>MissingField\<close>: "Wallet address and credential ID are required";
  \<^item> \<open>InvalidWalletAddress\<close>: "Invalid wallet address format";
  \<^item> \<open>InvalidEmail\<close>: "Invalid email format";
  \<^item> \<open>DuplicateUser\<close>: "User with this email already exists";
  \<^item> \<open>RequestNotFound\<close>: "Request not found";
  \<^item> \<open>RequestNotPending\<close>: "Request is not pending".
\<close>

datatype error =
    MissingField
  | InvalidWalletAddress
  | InvalidEmail
  | DuplicateUser
  | RequestNotFound
  | RequestNotPending

section \<open>URLSearchParams\<close>

text \<open>
  The program builds and reads query strings with the platform's \<^verbatim>\<open>URLSearchParams\<close>, the
  \<^verbatim>\<open>application/x-www-form-urlencoded\<close> serializer and parser of the URL Standard. Both
  work on bytes (numbers below 256) of the UTF-8 encoding. A decoded name or value can hold
  any code unit, so the parser's strings are lists of code units (\<open>units\<close>).
\<close>

type_synonym byte = nat
type_synonym units = "nat list"

definition units_of :: "string \<Rightarrow> units" where
  "units_of s = map code s"

definition utf8_encode_unit :: "char \<Rightarrow> byte list" where
  \<comment> \<open>a code unit up to U+00FF is its own code point: one byte below U+0080, two from there\<close>
  "utf8_encode_unit c =
     (if code c < 128 then [code c] else [192 + code c div 64, 128 + code c mod 64])"

definition utf8_encode :: "string \<Rightarrow> byte list" where
  "utf8_encode s = concat (map utf8_encode_unit s)"

function utf8_decode_from :: "nat \<Rightarrow> nat \<Rightarrow> nat \<Rightarrow> nat \<Rightarrow> byte list \<Rightarrow> nat list" where
  \<comment> \<open>the UTF-8 decoder of the Encoding Standard, with its state: code point, bytes needed,
      lower and upper boundary; an ill-formed sequence gives U+FFFD and the offending byte
      is read again\<close>
  "utf8_decode_from cp needed lower upper [] = (if needed \<noteq> 0 then [65533] else [])"
| "utf8_decode_from cp needed lower upper (b # bs) =
     (if needed = 0 then
        (if b \<le> 127 then b # utf8_decode_from 0 0 128 191 bs
         else if 194 \<le> b \<and> b \<le> 223 then utf8_decode_from (b mod 32) 1 128 191 bs
         else if 224 \<le> b \<and> b \<le> 239 then
           utf8_decode_from (b mod 16) 2 (if b = 224 then 160 else 128) (if b = 237 then 159 else 191) bs
         else if 240 \<le> b \<and> b \<le> 244 then
           utf8_decode_from (b mod 8) 3 (if b = 240 then 144 else 128) (if b = 244 then 143 else 191) bs
         else 65533 # utf8_decode_from 0 0 128 191 bs)
      else if b < lower \<or> upper < b then 65533 # utf8_decode_from 0 0 128 191 (b # bs)
      else if needed = 1 then (cp * 64 + b mod 64) # utf8_decode_from 0 0 128 191 bs
      else utf8_decode_from (cp * 64 + b mod 64) (needed - 1) 128 191 bs)"
  by pat_completeness auto
termination
  by (relation "measure (\<lambda>(cp, needed, lower, upper, bs). 2 * length bs + (if needed = 0 then 0 else 1))") auto

definition utf16_units :: "nat \<Rightarrow> units" where
  \<comment> \<open>a code point as one code unit, or as a surrogate pair from U+10000\<close>
  "utf16_units cp =
     (if cp < 65536 then [cp]
      else [55296 + (cp - 65536) div 1024, 56320 + (cp - 65536) mod 1024])"

definition utf8_decode :: "byte list \<Rightarrow> units" where
  \<comment> \<open>UTF-8 decode without BOM, as a JavaScript string\<close>
  "utf8_decode bs = concat (map utf16_units (utf8_decode_from 0 0 128 191 bs))"

definition hexUpper :: "nat \<Rightarrow> char" where
  "hexUpper n = ''0123456789ABCDEF'' ! (n mod 16)"

definition unreserved :: "byte \<Rightarrow> bool" where
  \<comment> \<open>the bytes the serializer leaves as they are: * - . 0-9 A-Z _ a-z\<close>
  "unreserved b = (b = 42 \<or> b = 45 \<or> b = 46 \<or> (48 \<le> b \<and> b \<le> 57) \<or> (65 \<le> b \<and> b \<le> 90)
                   \<or> b = 95 \<or> (97 \<le> b \<and> b \<le> 122))"

definition serialize_byte :: "byte \<Rightarrow> string" where
  "serialize_byte b =
     (if b = 32 then ''+''
      else if unreserved b then [char_of b]
      else [CHR ''%'', hexUpper (b div 16), hexUpper (b mod 16)])"

definition serialize_bytes :: "string \<Rightarrow> string" where
  \<comment> \<open>percent-encode after encoding (UTF-8), with space as plus\<close>
  "serialize_bytes s = concat (map serialize_byte (utf8_encode s))"

fun urlencoded_serialize :: "(string \<times> string) list \<Rightarrow> string" where
  "urlencoded_serialize [] = []"
| "urlencoded_serialize [(n, v)] = serialize_bytes n @ ''='' @ serialize_bytes v"
| "urlencoded_serialize ((n, v) # rest) =
     serialize_bytes n @ ''='' @ serialize_bytes v @ ''&'' @ urlencoded_serialize rest"

fun split_on :: "byte \<Rightarrow> byte list \<Rightarrow> byte list list" where
  "split_on d [] = [[]]"
| "split_on d (b # bs) =
     (if b = d then [] # split_on d bs
      else (case split_on d bs of [] \<Rightarrow> [[b]] | y # ys \<Rightarrow> (b # y) # ys))"

definition hexValue :: "byte \<Rightarrow> nat option" where
  \<comment> \<open>an ASCII hex digit (0-9, A-F, a-f) and its value\<close>
  "hexValue b =
     (if 48 \<le> b \<and> b \<le> 57 then Some (b - 48)
      else if 65 \<le> b \<and> b \<le> 70 then Some (b - 55)
      else if 97 \<le> b \<and> b \<le> 102 then Some (b - 87)
      else None)"

fun percent_decode :: "byte list \<Rightarrow> byte list" where
  "percent_decode [] = []"
| "percent_decode (b # bs) =
     (if b \<noteq> 37 then b # percent_decode bs
      else (case bs of
              h1 # h2 # rest \<Rightarrow>
                (case (hexValue h1, hexValue h2) of
                   (Some x, Some y) \<Rightarrow> (16 * x + y) # percent_decode rest
                 | _ \<Rightarrow> b # percent_decode bs)
            | _ \<Rightarrow> b # percent_decode bs))"

definition plus_to_space :: "byte list \<Rightarrow> byte list" where
  "plus_to_space bs = map (\<lambda>b. if b = 43 then 32 else b) bs"

definition parse_sequence :: "byte list \<Rightarrow> units \<times> units" where
  \<comment> \<open>one \<^verbatim>\<open>name=value\<close> sequence: split at the first \<^verbatim>\<open>=\<close> (the value is empty without one)\<close>
  "parse_sequence bytes =
     (let name = takeWhile (\<lambda>b. b \<noteq> 61) bytes;
          val = drop 1 (dropWhile (\<lambda>b. b \<noteq> 61) bytes)
      in (utf8_decode (percent_decode (plus_to_space name)),
          utf8_decode (percent_decode (plus_to_space val))))"

definition urlencoded_parse :: "byte list \<Rightarrow> (units \<times> units) list" where
  "urlencoded_parse input = map parse_sequence (filter (\<lambda>bytes. bytes \<noteq> []) (split_on 38 input))"

definition URLSearchParams :: "string \<Rightarrow> (units \<times> units) list" where
  \<comment> \<open>\<^verbatim>\<open>new URLSearchParams(init)\<close> on a string: one leading \<^verbatim>\<open>?\<close> is dropped\<close>
  "URLSearchParams init =
     urlencoded_parse (utf8_encode (case init of c # rest \<Rightarrow> if c = CHR ''?'' then rest else init | [] \<Rightarrow> init))"

definition get_param :: "(units \<times> units) list \<Rightarrow> string \<Rightarrow> units option" where
  \<comment> \<open>\<^verbatim>\<open>get(name)\<close>: the value of the first tuple with that name, or null\<close>
  "get_param params name = map_option snd (find (\<lambda>(n, v). n = units_of name) params)"

text \<open>The characters of a serialized name or value: ASCII, and none of \<^verbatim>\<open># & = ?\<close>.\<close>

definition query_safe :: "char \<Rightarrow> bool" where
  "query_safe ch = (code ch < 128 \<and> code ch \<noteq> 35 \<and> code ch \<noteq> 38 \<and> code ch \<noteq> 61 \<and> code ch \<noteq> 63)"

section \<open>Verification URLs\<close>

record CredentialParams =
  param_address :: "units option"
  param_credentialId :: "units option"
  param_type :: "units option"
  param_issuer :: "units option"

definition orElse :: "string option \<Rightarrow> string \<Rightarrow> string" where
  \<comment> \<open>\<^verbatim>\<open>x || y\<close> on an optional string: \<open>y\<close> when \<open>x\<close> is undefined or empty\<close>
  "orElse x y = (case x of None \<Rightarrow> y | Some v \<Rightarrow> if v = [] then y else v)"

definition generateVerificationUrl :: "string \<Rightarrow> string \<Rightarrow> string option \<Rightarrow> string \<Rightarrow> error + string" where
  \<comment> \<open>\<open>windowOrigin\<close> is \<^verbatim>\<open>window.location.origin\<close>\<close>
  "generateVerificationUrl walletAddress credentialId baseUrl windowOrigin =
     (if walletAddress = [] \<or> credentialId = [] then Inl MissingField
      else let cleanAddress = trim walletAddress;
               cleanCredentialId = trim credentialId
           in if \<not> isValidWalletAddress cleanAddress then Inl InvalidWalletAddress
              else let origin = orElse baseUrl windowOrigin;
                       params = [(''address'', cleanAddress), (''credentialId'', cleanCredentialId)]
                   in Inr (origin @ ''/verify?'' @ urlencoded_serialize params))"

definition orUndefined :: "units option \<Rightarrow> units option" where
  \<comment> \<open>\<^verbatim>\<open>x || undefined\<close>: null and the empty string are both falsy\<close>
  "orUndefined x = (case x of None \<Rightarrow> None | Some v \<Rightarrow> if v = [] then None else Some v)"

definition parseUrlParams :: "string option \<Rightarrow> CredentialParams" where
  \<comment> \<open>the argument is \<^verbatim>\<open>window.location.search\<close>, or None where there is no \<^verbatim>\<open>window\<close>\<close>
  "parseUrlParams search =
     (case search of
        None \<Rightarrow> \<lparr>param_address = None, param_credentialId = None, param_type = None, param_issuer = None\<rparr>
      | Some q \<Rightarrow>
          (let urlParams = URLSearchParams q
           in \<lparr>param_address = orUndefined (get_param urlParams ''address''),
               param_credentialId = orUndefined (get_param urlParams ''credentialId''),
               param_type = orUndefined (get_param urlParams ''type''),
               param_issuer = orUndefined (get_param urlParams ''issuer'')\<rparr>))"

definition location_search :: "string \<Rightarrow> string" where
  \<comment> \<open>\<^verbatim>\<open>window.location.search\<close> of a page at this URL: the text from the first \<^verbatim>\<open>?\<close> up to
      the fragment, and the empty string when there is no query or an empty one. (For a
      query of letters, digits and \<^verbatim>\<open>* - . _ + % = &\<close>, which the URL parser keeps as it is.)\<close>
  "location_search url =
     (let q = dropWhile (\<lambda>c. c \<noteq> CHR ''?'') (takeWhile (\<lambda>c. c \<noteq> CHR ''#'') url)
      in if length q \<le> 1 then [] else q)"

section \<open>The durable store\<close>

text \<open>
  The program keeps four JSON values in \<^verbatim>\<open>localStorage\<close>, each under its own key. A slot
  is absent, holds a string that \<^verbatim>\<open>JSON.parse\<close> rejects, or holds a value of its type.
  Field names carry a prefix for their record: \<open>p_\<close> user profile, \<open>c_\<close> issued credential,
  \<open>r_\<close> credential request, \<open>n_\<close> and \<open>q_\<close> their inputs, \<open>reg_\<close> and \<open>si_\<close> registration
  and sign-in data. Optional fields are options.
\<close>

datatype role = Student | Staff | Issuer

record UserProfile =
  p_id :: string
  p_name :: string
  p_email :: string
  p_walletAddress :: string
  p_role :: role
  p_organization :: "string option"
  p_institution :: "string option"
  p_createdAt :: string

text \<open>\<^verbatim>\<open>StoredUser\<close> declares the same fields with the same types.\<close>

type_synonym StoredUser = UserProfile

record StudentRegistration =
  reg_name :: string
  reg_email :: string
  reg_walletAddress :: string

record StaffRegistration = StudentRegistration +
  reg_organization :: string

record IssuerRegistration = StudentRegistration +
  reg_institution :: string

record StaffSignIn =
  si_email :: string

record StudentSignIn = StaffSignIn +
  si_walletAddress :: string

type_synonym IssuerSignIn = StaffSignIn

datatype credentialStatus = Issued | PendingIssue | Revoked

datatype requestStatus = Pending | Approved | Rejected

record IssuedCredential =
  c_id :: string
  c_title :: string
  c_description :: string
  c_studentWalletAddress :: string
  c_issuerWalletAddress :: string
  c_issuerName :: string
  c_issuerInstitution :: string
  c_issuedDate :: string
  c_status :: credentialStatus

record NewCredential =
  n_title :: string
  n_description :: string
  n_studentWalletAddress :: string
  n_issuerWalletAddress :: string
  n_issuerName :: string
  n_issuerInstitution :: string

record CredentialRequest =
  r_id :: string
  r_studentName :: string
  r_studentEmail :: string
  r_studentWalletAddress :: string
  r_issuerWalletAddress :: string
  r_issuerName :: string
  r_issuerInstitution :: string
  r_credentialTitle :: string
  r_description :: string
  r_requestDate :: string
  r_status :: requestStatus
  r_rejectionNote :: "string option"

record NewRequest =
  q_studentName :: string
  q_studentEmail :: string
  q_studentWalletAddress :: string
  q_issuerWalletAddress :: string
  q_issuerName :: string
  q_issuerInstitution :: string
  q_credentialTitle :: string
  q_description :: string
  q_rejectionNote :: "string option"

record ApprovalMetadata =
  m_credentialType :: "string option"
  m_eventLink :: "string option"
  m_issueDate :: "string option"
  m_additionalMetadata :: "string option"

datatype 'a slot = Absent | Corrupt | Stored 'a

record localStorage =
  user_profile :: "UserProfile slot"
  issued_credentials :: "IssuedCredential list slot"
  registered_users :: "StoredUser list slot"
  credential_requests :: "CredentialRequest list slot"

text \<open>
  The clock and the random generator are inputs: \<open>dateNow\<close> is the decimal text of
  \<^verbatim>\<open>Date.now()\<close>, \<open>random36\<close> the text \<^verbatim>\<open>Math.random().toString(36).substr(2, 9)\<close> and
  \<open>isoNow\<close> the text \<^verbatim>\<open>new Date().toISOString()\<close> at the call.
\<close>

record env =
  dateNow :: string
  random36 :: string
  isoNow :: string

section \<open>Identity store\<close>

definition saveUserProfile :: "UserProfile \<Rightarrow> localStorage \<Rightarrow> localStorage" where
  "saveUserProfile profile s = s\<lparr>user_profile := Stored profile\<rparr>"

definition getCurrentUser :: "localStorage \<Rightarrow> UserProfile option" where
  "getCurrentUser s = (case user_profile s of Stored profile \<Rightarrow> Some profile | _ \<Rightarrow> None)"

definition logout :: "localStorage \<Rightarrow> localStorage" where
  "logout s = s\<lparr>user_profile := Absent\<rparr>"

definition getRegisteredUsers :: "localStorage \<Rightarrow> StoredUser list" where
  "getRegisteredUsers s = (case registered_users s of Stored users \<Rightarrow> users | _ \<Rightarrow> [])"

definition saveToRegisteredUsers :: "StoredUser \<Rightarrow> localStorage \<Rightarrow> localStorage" where
  "saveToRegisteredUsers user s =
     (let users = getRegisteredUsers s;
          filteredUsers = filter (\<lambda>u. p_email u \<noteq> p_email user) users
      in s\<lparr>registered_users := Stored (filteredUsers @ [user])\<rparr>)"

definition findUserByEmail :: "string \<Rightarrow> localStorage \<Rightarrow> StoredUser option" where
  "findUserByEmail email s =
     find (\<lambda>user. toLowerCase (p_email user) = toLowerCase email) (getRegisteredUsers s)"

definition findUserByEmailAndWallet :: "string \<Rightarrow> string \<Rightarrow> localStorage \<Rightarrow> StoredUser option" where
  "findUserByEmailAndWallet email walletAddress s =
     find (\<lambda>user. toLowerCase (p_email user) = toLowerCase email \<and> p_walletAddress user = walletAddress)
       (getRegisteredUsers s)"

definition profileOf :: "StoredUser \<Rightarrow> UserProfile" where
  \<comment> \<open>the profile each sign-in builds from the stored user, field by field\<close>
  "profileOf user =
     \<lparr>p_id = p_id user, p_name = p_name user, p_email = p_email user,
      p_walletAddress = p_walletAddress user, p_role = p_role user,
      p_organization = p_organization user, p_institution = p_institution user,
      p_createdAt = p_createdAt user\<rparr>"

definition signInStudent :: "StudentSignIn \<Rightarrow> localStorage \<Rightarrow> (error + UserProfile option) \<times> localStorage" where
  "signInStudent data s =
     (if \<not> isValidEmail (si_email data) then (Inl InvalidEmail, s)
      else if \<not> isValidWallet (si_walletAddress data) then (Inl InvalidWalletAddress, s)
      else (case findUserByEmailAndWallet (si_email data) (si_walletAddress data) s of
              None \<Rightarrow> (Inr None, s)
            | Some user \<Rightarrow>
                if p_role user \<noteq> Student then (Inr None, s)
                else let profile = profileOf user
                     in (Inr (Some profile), saveUserProfile profile s)))"

definition signInStaff :: "StaffSignIn \<Rightarrow> localStorage \<Rightarrow> (error + UserProfile option) \<times> localStorage" where
  "signInStaff data s =
     (if \<not> isValidEmail (si_email data) then (Inl InvalidEmail, s)
      else (case findUserByEmail (si_email data) s of
              None \<Rightarrow> (Inr None, s)
            | Some user \<Rightarrow>
                if p_role user \<noteq> Staff then (Inr None, s)
                else let profile = profileOf user
                     in (Inr (Some profile), saveUserProfile profile s)))"

definition signInIssuer :: "IssuerSignIn \<Rightarrow> localStorage \<Rightarrow> (error + UserProfile option) \<times> localStorage" where
  "signInIssuer data s =
     (if \<not> isValidEmail (si_email data) then (Inl InvalidEmail, s)
      else (case findUserByEmail (si_email data) s of
              None \<Rightarrow> (Inr None, s)
            | Some user \<Rightarrow>
                if p_role user \<noteq> Issuer then (Inr None, s)
                else let profile = profileOf user
                     in (Inr (Some profile), saveUserProfile profile s)))"

definition generateUserId :: "env \<Rightarrow> string" where
  "generateUserId e = ''user_'' @ dateNow e @ ''_'' @ random36 e"

definition registerStudent :: "StudentRegistration \<Rightarrow> env \<Rightarrow> localStorage \<Rightarrow> (error + UserProfile) \<times> localStorage" where
  "registerStudent data e s =
     (case findUserByEmail (reg_email data) s of
        Some existingUser \<Rightarrow> (Inl DuplicateUser, s)
      | None \<Rightarrow>
          (let profile = \<lparr>p_id = generateUserId e, p_name = reg_name data, p_email = reg_email data,
                          p_walletAddress = reg_walletAddress data, p_role = Student,
                          p_organization = None, p_institution = None, p_createdAt = isoNow e\<rparr>;
               storedUser = \<lparr>p_id = p_id profile, p_name = p_name profile, p_email = p_email profile,
                             p_walletAddress = p_walletAddress profile, p_role = p_role profile,
                             p_organization = None, p_institution = None,
                             p_createdAt = p_createdAt profile\<rparr>
           in (Inr profile, saveToRegisteredUsers storedUser s)))"

definition registerStaff :: "StaffRegistration \<Rightarrow> env \<Rightarrow> localStorage \<Rightarrow> (error + UserProfile) \<times> localStorage" where
  "registerStaff data e s =
     (case findUserByEmail (reg_email data) s of
        Some existingUser \<Rightarrow> (Inl DuplicateUser, s)
      | None \<Rightarrow>
          (let profile = \<lparr>p_id = generateUserId e, p_name = reg_name data, p_email = reg_email data,
                          p_walletAddress = reg_walletAddress data, p_role = Staff,
                          p_organization = Some (reg_organization data), p_institution = None,
                          p_createdAt = isoNow e\<rparr>;
               storedUser = \<lparr>p_id = p_id profile, p_name = p_name profile, p_email = p_email profile,
                             p_walletAddress = p_walletAddress profile, p_role = p_role profile,
                             p_organization = p_organization profile, p_institution = None,
                             p_createdAt = p_createdAt profile\<rparr>
           in (Inr profile, saveToRegisteredUsers storedUser s)))"

definition registerIssuer :: "IssuerRegistration \<Rightarrow> env \<Rightarrow> localStorage \<Rightarrow> (error + UserProfile) \<times> localStorage" where
  "registerIssuer data e s =
     (case findUserByEmail (reg_email data) s of
        Some existingUser \<Rightarrow> (Inl DuplicateUser, s)
      | None \<Rightarrow>
          (let profile = \<lparr>p_id = generateUserId e, p_name = reg_name data, p_email = reg_email data,
                          p_walletAddress = reg_walletAddress data, p_role = Issuer,
                          p_organization = None, p_institution = Some (reg_institution data),
                          p_createdAt = isoNow e\<rparr>;
               storedUser = \<lparr>p_id = p_id profile, p_name = p_name profile, p_email = p_email profile,
                             p_walletAddress = p_walletAddress profile, p_role = p_role profile,
                             p_organization = None, p_institution = p_institution profile,
                             p_createdAt = p_createdAt profile\<rparr>
           in (Inr profile, saveToRegisteredUsers storedUser s)))"

section \<open>Credential ledger and request lifecycle\<close>

definition getIssuedCredentials :: "localStorage \<Rightarrow> IssuedCredential list" where
  "getIssuedCredentials s = (case issued_credentials s of Stored creds \<Rightarrow> creds | _ \<Rightarrow> [])"

definition saveIssuedCredential :: "NewCredential \<Rightarrow> env \<Rightarrow> localStorage \<Rightarrow> IssuedCredential \<times> localStorage" where
  "saveIssuedCredential credential e s =
     (let issuedCredential =
            \<lparr>c_id = ''cred_'' @ dateNow e @ ''_'' @ random36 e,
             c_title = n_title credential, c_description = n_description credential,
             c_studentWalletAddress = n_studentWalletAddress credential,
             c_issuerWalletAddress = n_issuerWalletAddress credential,
             c_issuerName = n_issuerName credential,
             c_issuerInstitution = n_issuerInstitution credential,
             c_issuedDate = isoNow e, c_status = Issued\<rparr>;
          existing = getIssuedCredentials s
      in (issuedCredential, s\<lparr>issued_credentials := Stored (existing @ [issuedCredential])\<rparr>))"

definition getCredentialRequests :: "localStorage \<Rightarrow> CredentialRequest list" where
  "getCredentialRequests s = (case credential_requests s of Stored reqs \<Rightarrow> reqs | _ \<Rightarrow> [])"

definition submitCredentialRequest :: "NewRequest \<Rightarrow> env \<Rightarrow> localStorage \<Rightarrow> CredentialRequest \<times> localStorage" where
  "submitCredentialRequest request e s =
     (let newRequest =
            \<lparr>r_id = ''req_'' @ dateNow e @ ''_'' @ random36 e,
             r_studentName = q_studentName request, r_studentEmail = q_studentEmail request,
             r_studentWalletAddress = q_studentWalletAddress request,
             r_issuerWalletAddress = q_issuerWalletAddress request,
             r_issuerName = q_issuerName request,
             r_issuerInstitution = q_issuerInstitution request,
             r_credentialTitle = q_credentialTitle request,
             r_description = q_description request,
             r_requestDate = isoNow e, r_status = Pending,
             r_rejectionNote = q_rejectionNote request\<rparr>;
          existing = getCredentialRequests s
      in (newRequest, s\<lparr>credential_requests := Stored (existing @ [newRequest])\<rparr>))"

primrec findIndex :: "('a \<Rightarrow> bool) \<Rightarrow> 'a list \<Rightarrow> nat option" where
  \<comment> \<open>\<^verbatim>\<open>Array.prototype.findIndex\<close>; None is its -1\<close>
  "findIndex P [] = None"
| "findIndex P (x # xs) = (if P x then Some 0 else map_option Suc (findIndex P xs))"

definition approveCredentialRequest ::
  "string \<Rightarrow> ApprovalMetadata \<Rightarrow> env \<Rightarrow> localStorage
   \<Rightarrow> (error + CredentialRequest \<times> IssuedCredential) \<times> localStorage" where
  "approveCredentialRequest requestId metadata e s =
     (let requests = getCredentialRequests s
      in case findIndex (\<lambda>req. r_id req = requestId) requests of
           None \<Rightarrow> (Inl RequestNotFound, s)
         | Some requestIndex \<Rightarrow>
             (let request = requests ! requestIndex
              in if r_status request \<noteq> Pending then (Inl RequestNotPending, s)
                 else (let requests' = requests[requestIndex := request\<lparr>r_status := Approved\<rparr>];
                           s1 = s\<lparr>credential_requests := Stored requests'\<rparr>;
                           (credential, s2) =
                             saveIssuedCredential
                               \<lparr>n_title = r_credentialTitle request,
                                n_description = r_description request,
                                n_studentWalletAddress = r_studentWalletAddress request,
                                n_issuerWalletAddress = r_issuerWalletAddress request,
                                n_issuerName = r_issuerName request,
                                n_issuerInstitution = r_issuerInstitution request\<rparr> e s1
                       in (Inr (requests' ! requestIndex, credential), s2))))"

definition rejectCredentialRequest ::
  "string \<Rightarrow> string option \<Rightarrow> localStorage \<Rightarrow> (error + CredentialRequest) \<times> localStorage" where
  "rejectCredentialRequest requestId rejectionNote s =
     (let requests = getCredentialRequests s
      in case findIndex (\<lambda>req. r_id req = requestId) requests of
           None \<Rightarrow> (Inl RequestNotFound, s)
         | Some requestIndex \<Rightarrow>
             (let request = requests ! requestIndex
              in if r_status request \<noteq> Pending then (Inl RequestNotPending, s)
                 else (let note = (case rejectionNote of None \<Rightarrow> ''Request was rejected''
                                   | Some n \<Rightarrow> if n = [] then ''Request was rejected'' else n);
                           requests' = requests[requestIndex :=
                                         request\<lparr>r_status := Rejected, r_rejectionNote := Some note\<rparr>];
                           s1 = s\<lparr>credential_requests := Stored requests'\<rparr>
                       in (Inr (requests' ! requestIndex), s1))))"

section \<open>Seed data\<close>

definition testUsers :: "env \<Rightarrow> StoredUser list" where
  "testUsers e =
     [\<lparr>p_id = ''test_student_001'', p_name = ''Alex Student'', p_email = ''student@test.com'',
       p_walletAddress = ''0x1234567890abcdef1234567890abcdef12345678'', p_role = Student,
       p_organization = None, p_institution = None, p_createdAt = isoNow e\<rparr>,
      \<lparr>p_id = ''test_staff_001'', p_name = ''Sarah Verifier'', p_email = ''staff@university.edu'',
       p_walletAddress = ''0xabcdef1234567890abcdef1234567890abcdef12'', p_role = Staff,
       p_organization = Some ''Tech University'', p_institution = None, p_createdAt = isoNow e\<rparr>,
      \<lparr>p_id = ''test_issuer_001'', p_name = ''Dr. Michael Issuer'', p_email = ''issuer@techacademy.edu'',
       p_walletAddress = ''0x9876543210fedcba9876543210fedcba98765432'', p_role = Issuer,
       p_organization = None, p_institution = Some ''TechAcademy Institute'', p_createdAt = isoNow e\<rparr>]"

definition seedTestUsers :: "env \<Rightarrow> localStorage \<Rightarrow> localStorage" where
  "seedTestUsers e s =
     (let existing = getRegisteredUsers s;
          existing' = foldl (\<lambda>acc testUser.
                         if find (\<lambda>u. p_email u = p_email testUser) acc = None then acc @ [testUser] else acc)
                       existing (testUsers e)
      in s\<lparr>registered_users := Stored existing'\<rparr>)"

section \<open>The registry invariant and sample inputs\<close>

text \<open>At most one registered user per lower-cased email.\<close>

definition emails_unique :: "localStorage \<Rightarrow> bool" where
  "emails_unique s = distinct (map (\<lambda>u. toLowerCase (p_email u)) (getRegisteredUsers s))"

text \<open>Concrete stores, clock readings and inputs, used to run the theorems below.\<close>

definition emptyStorage :: localStorage where
  "emptyStorage = \<lparr>user_profile = Absent, issued_credentials = Absent, registered_users = Absent,
                    credential_requests = Absent\<rparr>"

definition env0 :: env where
  "env0 = \<lparr>dateNow = ''1700000000000'', random36 = ''k3j9x2m1q'', isoNow = ''2023-11-14T22:13:20.000Z''\<rparr>"

definition env1 :: env where
  "env1 = \<lparr>dateNow = ''1700000060000'', random36 = ''a8s7d6f5g'', isoNow = ''2023-11-14T22:14:20.000Z''\<rparr>"

definition seededStorage :: localStorage where
  "seededStorage = seedTestUsers env0 emptyStorage"

definition sampleRequest :: NewRequest where
  "sampleRequest =
     \<lparr>q_studentName = ''Alex Student'', q_studentEmail = ''student@test.com'',
      q_studentWalletAddress = ''0x1234567890abcdef1234567890abcdef12345678'',
      q_issuerWalletAddress = ''0x9876543210fedcba9876543210fedcba98765432'',
      q_issuerName = ''Dr. Michael Issuer'', q_issuerInstitution = ''TechAcademy Institute'',
      q_credentialTitle = ''Web Development Certificate'', q_description = ''Completed the course'',
      q_rejectionNote = None\<rparr>"

definition noMetadata :: ApprovalMetadata where
  "noMetadata = \<lparr>m_credentialType = None, m_eventLink = None, m_issueDate = None,
                  m_additionalMetadata = None\<rparr>"

definition dupStudent :: StudentRegistration where
  "dupStudent = \<lparr>reg_name = ''Alex Again'', reg_email = ''Student@Test.COM'',
                  reg_walletAddress = ''0x1234567890abcdef1234567890abcdef12345678''\<rparr>"

definition dupStaff :: StaffRegistration where
  "dupStaff = \<lparr>reg_name = ''Sarah Again'', reg_email = ''STAFF@university.edu'',
                reg_walletAddress = ''sarah.apt'', reg_organization = ''Tech University''\<rparr>"

definition dupIssuer :: IssuerRegistration where
  "dupIssuer = \<lparr>reg_name = ''Alex Issuer'', reg_email = ''student@test.com'',
                 reg_walletAddress = ''alex.apt'', reg_institution = ''TechAcademy Institute''\<rparr>"

definition newStudent :: StudentRegistration where
  "newStudent = \<lparr>reg_name = ''Bo New'', reg_email = ''bo@test.com'', reg_walletAddress = ''bo.apt''\<rparr>"

definition newStaff :: StaffRegistration where
  "newStaff = \<lparr>reg_name = ''Cy Staff'', reg_email = ''cy@university.edu'', reg_walletAddress = ''cy.apt'',
                reg_organization = ''Tech University''\<rparr>"

definition newIssuer :: IssuerRegistration where
  "newIssuer = \<lparr>reg_name = ''Di Issuer'', reg_email = ''di@techacademy.edu'', reg_walletAddress = ''di.apt'',
                 reg_institution = ''TechAcademy Institute''\<rparr>"

definition staffSession :: localStorage where
  "staffSession = snd (signInStaff \<lparr>si_email = ''staff@university.edu''\<rparr> seededStorage)"

definition approvedStorage :: localStorage where
  "approvedStorage =
     snd (approveCredentialRequest ''req_1700000000000_k3j9x2m1q'' noMetadata env1
            (snd (submitCredentialRequest sampleRequest env0 seededStorage)))"

section \<open>Request lifecycle\<close>

lemma findIndex_None: "findIndex P xs = None \<longleftrightarrow> (\<forall>x \<in> set xs. \<not> P x)"
  by (induction xs) auto

lemma findIndex_Some:
  "findIndex P xs = Some i \<Longrightarrow> i < length xs \<and> P (xs ! i) \<and> find P xs = Some (xs ! i)"
  by (induction xs arbitrary: i) (auto split: if_splits)

lemma findIndex_fresh_last:
  "\<forall>x \<in> set xs. \<not> P x \<Longrightarrow> P y \<Longrightarrow> findIndex P (xs @ [y]) = Some (length xs)"
  by (induction xs) auto

lemma approve_fail_unchanged:
  "approveCredentialRequest rid md e s = (Inl err, s') \<Longrightarrow> s' = s"
  by (auto simp: approveCredentialRequest_def Let_def split: option.splits if_splits prod.splits)

lemma reject_fail_unchanged:
  "rejectCredentialRequest rid note s = (Inl err, s') \<Longrightarrow> s' = s"
  by (auto simp: rejectCredentialRequest_def Let_def split: option.splits if_splits)

lemma approve_not_found:
  "\<forall>r \<in> set (getCredentialRequests s). r_id r \<noteq> rid \<Longrightarrow>
   approveCredentialRequest rid md e s = (Inl RequestNotFound, s)"
  using findIndex_None [of "\<lambda>req. r_id req = rid" "getCredentialRequests s"]
  by (simp add: approveCredentialRequest_def Let_def)

lemma reject_not_found:
  "\<forall>r \<in> set (getCredentialRequests s). r_id r \<noteq> rid \<Longrightarrow>
   rejectCredentialRequest rid note s = (Inl RequestNotFound, s)"
  using findIndex_None [of "\<lambda>req. r_id req = rid" "getCredentialRequests s"]
  by (simp add: rejectCredentialRequest_def Let_def)

lemma approve_not_pending:
  assumes "findIndex (\<lambda>req. r_id req = rid) (getCredentialRequests s) = Some i"
    and "r_status (getCredentialRequests s ! i) \<noteq> Pending"
  shows "approveCredentialRequest rid md e s = (Inl RequestNotPending, s)"
  using assms by (simp add: approveCredentialRequest_def Let_def)

lemma reject_not_pending:
  assumes "findIndex (\<lambda>req. r_id req = rid) (getCredentialRequests s) = Some i"
    and "r_status (getCredentialRequests s ! i) \<noteq> Pending"
  shows "rejectCredentialRequest rid note s = (Inl RequestNotPending, s)"
  using assms by (simp add: rejectCredentialRequest_def Let_def)

lemma approve_pending:
  assumes "findIndex (\<lambda>req. r_id req = rid) (getCredentialRequests s) = Some i"
    and "r_status (getCredentialRequests s ! i) = Pending"
  shows "\<exists>cred. approveCredentialRequest rid md e s =
           (Inr ((getCredentialRequests s ! i)\<lparr>r_status := Approved\<rparr>, cred),
            s\<lparr>credential_requests := Stored ((getCredentialRequests s)[i := (getCredentialRequests s ! i)\<lparr>r_status := Approved\<rparr>]),
              issued_credentials := Stored (getIssuedCredentials s @ [cred])\<rparr>)
         \<and> c_status cred = Issued"
proof -
  from assms(1) have "i < length (getCredentialRequests s)" by (simp add: findIndex_Some)
  then show ?thesis
    using assms
    by (simp add: approveCredentialRequest_def Let_def saveIssuedCredential_def getIssuedCredentials_def)
qed

lemma seededStorage_eq:
  "seededStorage = \<lparr>user_profile = Absent, issued_credentials = Absent,
                     registered_users = Stored (testUsers env0), credential_requests = Absent\<rparr>"
  by (simp add: seededStorage_def seedTestUsers_def emptyStorage_def getRegisteredUsers_def testUsers_def Let_def)

lemma findIndex_update:
  "findIndex P xs = Some i \<Longrightarrow> P y \<Longrightarrow> findIndex P (xs[i := y]) = Some i"
proof (induction xs arbitrary: i)
  case Nil
  then show ?case by simp
next
  case (Cons x xs)
  then show ?case by (cases i) (auto split: if_splits)
qed

lemma approve_success:
  assumes "approveCredentialRequest rid md e s = (Inr (req', cred), s')"
  shows "\<exists>i. findIndex (\<lambda>req. r_id req = rid) (getCredentialRequests s) = Some i
           \<and> r_status (getCredentialRequests s ! i) = Pending
           \<and> req' = (getCredentialRequests s ! i)\<lparr>r_status := Approved\<rparr>
           \<and> c_status cred = Issued
           \<and> s' = s\<lparr>credential_requests := Stored ((getCredentialRequests s)[i := req']),
                      issued_credentials := Stored (getIssuedCredentials s @ [cred])\<rparr>"
proof (cases "findIndex (\<lambda>req. r_id req = rid) (getCredentialRequests s)")
  case None
  with assms show ?thesis by (simp add: approveCredentialRequest_def Let_def)
next
  case (Some i)
  show ?thesis
  proof (cases "r_status (getCredentialRequests s ! i) = Pending")
    case True
    from approve_pending [OF Some True, of md e] assms Some True show ?thesis by auto
  next
    case False
    from approve_not_pending [OF Some False, of md e] assms show ?thesis by simp
  qed
qed

text \<open>
  C2, as the program has it. Submitting a request creates it with status pending, appended
  to the requests list. Where the new request's id is the id of no request stored before,
  approving it once succeeds. Whenever an approval succeeds, the request is marked approved
  and exactly one credential, of status issued, is appended to the issued-credentials
  list; approving the same request id a second time then fails with \<open>RequestNotPending\<close>,
  and so does rejecting it, whatever the metadata, the note and the clock of the later
  calls.
\<close>

theorem request_lifecycle:
  "(submitCredentialRequest q e1 s = (req, s1) \<longrightarrow>
      r_status req = Pending \<and> getCredentialRequests s1 = getCredentialRequests s @ [req])
   \<and> (submitCredentialRequest q e1 s = (req, s1)
        \<and> (\<forall>r \<in> set (getCredentialRequests s). r_id r \<noteq> r_id req) \<longrightarrow>
      (\<exists>cred s2. approveCredentialRequest (r_id req) md e2 s1 = (Inr (req\<lparr>r_status := Approved\<rparr>, cred), s2)))
   \<and> (approveCredentialRequest rid md e2 s1 = (Inr (req', cred), s2) \<longrightarrow>
      r_id req' = rid \<and> r_status req' = Approved \<and> c_status cred = Issued
      \<and> getIssuedCredentials s2 = getIssuedCredentials s1 @ [cred]
      \<and> approveCredentialRequest rid md' e3 s2 = (Inl RequestNotPending, s2)
      \<and> rejectCredentialRequest rid nt s2 = (Inl RequestNotPending, s2))"
proof -
  have sub: "r_status req = Pending \<and> getCredentialRequests s1 = getCredentialRequests s @ [req]"
    if "submitCredentialRequest q e1 s = (req, s1)"
    using that by (auto simp: submitCredentialRequest_def Let_def getCredentialRequests_def)
  have first: "\<exists>cred s2. approveCredentialRequest (r_id req) md e2 s1 = (Inr (req\<lparr>r_status := Approved\<rparr>, cred), s2)"
    if submit: "submitCredentialRequest q e1 s = (req, s1)"
      and fresh: "\<forall>r \<in> set (getCredentialRequests s). r_id r \<noteq> r_id req"
  proof -
    let ?R = "getCredentialRequests s"
    from sub [OF submit] have pend: "r_status req = Pending" and R1: "getCredentialRequests s1 = ?R @ [req]"
      by simp_all
    from fresh have no: "\<forall>x \<in> set ?R. \<not> r_id x = r_id req" by simp
    have idx: "findIndex (\<lambda>r. r_id r = r_id req) (getCredentialRequests s1) = Some (length ?R)"
      unfolding R1 using no by (rule findIndex_fresh_last) simp
    have at: "getCredentialRequests s1 ! length ?R = req" by (simp add: R1)
    from approve_pending [OF idx, of md e2] pend at show ?thesis by auto
  qed
  have once: "r_id req' = rid \<and> r_status req' = Approved \<and> c_status cred = Issued
      \<and> getIssuedCredentials s2 = getIssuedCredentials s1 @ [cred]
      \<and> approveCredentialRequest rid md' e3 s2 = (Inl RequestNotPending, s2)
      \<and> rejectCredentialRequest rid nt s2 = (Inl RequestNotPending, s2)"
    if ok: "approveCredentialRequest rid md e2 s1 = (Inr (req', cred), s2)"
  proof -
    let ?R = "getCredentialRequests s1"
    from approve_success [OF ok] obtain i where
      idx: "findIndex (\<lambda>req. r_id req = rid) ?R = Some i"
      and req': "req' = (?R ! i)\<lparr>r_status := Approved\<rparr>"
      and issued: "c_status cred = Issued"
      and s2: "s2 = s1\<lparr>credential_requests := Stored (?R[i := req']),
                      issued_credentials := Stored (getIssuedCredentials s1 @ [cred])\<rparr>"
      by blast
    from findIndex_Some [OF idx] have i: "i < length ?R" and rid: "r_id (?R ! i) = rid" by simp_all
    have id': "r_id req' = rid" and st': "r_status req' = Approved" using rid by (simp_all add: req')
    have R2: "getCredentialRequests s2 = ?R[i := req']" by (simp add: s2 getCredentialRequests_def)
    have I2: "getIssuedCredentials s2 = getIssuedCredentials s1 @ [cred]"
      by (simp add: s2 getIssuedCredentials_def)
    have idx2: "findIndex (\<lambda>req. r_id req = rid) (getCredentialRequests s2) = Some i"
      unfolding R2 using idx id' by (rule findIndex_update)
    have at2: "r_status (getCredentialRequests s2 ! i) \<noteq> Pending"
      unfolding R2 using i st' by simp
    from id' st' issued I2 approve_not_pending [OF idx2 at2] reject_not_pending [OF idx2 at2]
    show ?thesis by simp
  qed
  from sub first once show ?thesis by blast
qed

theorem request_lifecycle_witness:
  "r_status (fst (submitCredentialRequest sampleRequest env0 seededStorage)) = Pending
   \<and> r_id (fst (submitCredentialRequest sampleRequest env0 seededStorage)) = ''req_1700000000000_k3j9x2m1q''
   \<and> getCredentialRequests (snd (submitCredentialRequest sampleRequest env0 seededStorage))
       = [fst (submitCredentialRequest sampleRequest env0 seededStorage)]
   \<and> (\<exists>cred. approveCredentialRequest ''req_1700000000000_k3j9x2m1q'' noMetadata env1
                (snd (submitCredentialRequest sampleRequest env0 seededStorage))
             = (Inr ((fst (submitCredentialRequest sampleRequest env0 seededStorage))\<lparr>r_status := Approved\<rparr>, cred),
                approvedStorage)
             \<and> c_status cred = Issued
             \<and> getIssuedCredentials approvedStorage = [cred])
   \<and> approveCredentialRequest ''req_1700000000000_k3j9x2m1q'' noMetadata env1 approvedStorage
       = (Inl RequestNotPending, approvedStorage)
   \<and> rejectCredentialRequest ''req_1700000000000_k3j9x2m1q'' None approvedStorage
       = (Inl RequestNotPending, approvedStorage)
   \<and> getCredentialRequests approvedStorage \<noteq> []
   \<and> r_status (fst (submitCredentialRequest sampleRequest env1 approvedStorage)) = Pending
   \<and> r_id (fst (submitCredentialRequest sampleRequest env1 approvedStorage)) = ''req_1700000060000_a8s7d6f5g''
   \<and> getCredentialRequests (snd (submitCredentialRequest sampleRequest env1 approvedStorage))
       = getCredentialRequests approvedStorage @ [fst (submitCredentialRequest sampleRequest env1 approvedStorage)]
   \<and> (\<exists>cred s2. approveCredentialRequest ''req_1700000060000_a8s7d6f5g'' noMetadata env1
                (snd (submitCredentialRequest sampleRequest env1 approvedStorage))
             = (Inr ((fst (submitCredentialRequest sampleRequest env1 approvedStorage))\<lparr>r_status := Approved\<rparr>, cred), s2)
             \<and> c_status cred = Issued
             \<and> getIssuedCredentials s2
                 = getIssuedCredentials (snd (submitCredentialRequest sampleRequest env1 approvedStorage)) @ [cred]
             \<and> approveCredentialRequest ''req_1700000060000_a8s7d6f5g'' noMetadata env0 s2
                 = (Inl RequestNotPending, s2)
             \<and> rejectCredentialRequest ''req_1700000060000_a8s7d6f5g'' None s2
                 = (Inl RequestNotPending, s2))"
proof -
  have first: "r_status (fst (submitCredentialRequest sampleRequest env0 seededStorage)) = Pending
   \<and> r_id (fst (submitCredentialRequest sampleRequest env0 seededStorage)) = ''req_1700000000000_k3j9x2m1q''
   \<and> getCredentialRequests (snd (submitCredentialRequest sampleRequest env0 seededStorage))
       = [fst (submitCredentialRequest sampleRequest env0 seededStorage)]
   \<and> (\<exists>cred. approveCredentialRequest ''req_1700000000000_k3j9x2m1q'' noMetadata env1
                (snd (submitCredentialRequest sampleRequest env0 seededStorage))
             = (Inr ((fst (submitCredentialRequest sampleRequest env0 seededStorage))\<lparr>r_status := Approved\<rparr>, cred),
                approvedStorage)
             \<and> c_status cred = Issued
             \<and> getIssuedCredentials approvedStorage = [cred])
   \<and> approveCredentialRequest ''req_1700000000000_k3j9x2m1q'' noMetadata env1 approvedStorage
       = (Inl RequestNotPending, approvedStorage)
   \<and> rejectCredentialRequest ''req_1700000000000_k3j9x2m1q'' None approvedStorage
       = (Inl RequestNotPending, approvedStorage)"
  proof -
    let ?sub = "submitCredentialRequest sampleRequest env0 seededStorage"
    let ?rid = "''req_1700000000000_k3j9x2m1q''"
    have none: "getCredentialRequests seededStorage = []" "getIssuedCredentials seededStorage = []"
      by (simp_all add: seededStorage_eq getCredentialRequests_def getIssuedCredentials_def)
    have rid: "r_id (fst ?sub) = ?rid"
      by (simp add: submitCredentialRequest_def Let_def env0_def)
    have sub: "?sub = (fst ?sub, snd ?sub)" by simp
    have fresh: "\<forall>r \<in> set (getCredentialRequests seededStorage). r_id r \<noteq> r_id (fst ?sub)"
      by (simp add: none)
    have same: "getIssuedCredentials (snd ?sub) = []"
      by (simp add: submitCredentialRequest_def Let_def getIssuedCredentials_def seededStorage_eq)
    note t = request_lifecycle [of sampleRequest env0 seededStorage "fst ?sub" "snd ?sub" noMetadata env1]
    from t sub have a: "r_status (fst ?sub) = Pending \<and> getCredentialRequests (snd ?sub) = [fst ?sub]"
      by (simp add: none)
    from t sub fresh obtain cred s2 where
      ok: "approveCredentialRequest ?rid noMetadata env1 (snd ?sub) = (Inr ((fst ?sub)\<lparr>r_status := Approved\<rparr>, cred), s2)"
      unfolding rid by blast
    then have s2: "s2 = approvedStorage" by (simp add: approvedStorage_def)
    from request_lifecycle [of sampleRequest env0 seededStorage "fst ?sub" "snd ?sub" noMetadata env1
        ?rid "(fst ?sub)\<lparr>r_status := Approved\<rparr>" cred s2 noMetadata env1 None] ok
    have b: "c_status cred = Issued \<and> getIssuedCredentials s2 = [cred]
        \<and> approveCredentialRequest ?rid noMetadata env1 s2 = (Inl RequestNotPending, s2)
        \<and> rejectCredentialRequest ?rid None s2 = (Inl RequestNotPending, s2)"
      by (simp add: same)
    from a rid ok b show ?thesis unfolding s2 by blast
  qed
  have second: "getCredentialRequests approvedStorage \<noteq> []
   \<and> r_status (fst (submitCredentialRequest sampleRequest env1 approvedStorage)) = Pending
   \<and> r_id (fst (submitCredentialRequest sampleRequest env1 approvedStorage)) = ''req_1700000060000_a8s7d6f5g''
   \<and> getCredentialRequests (snd (submitCredentialRequest sampleRequest env1 approvedStorage))
       = getCredentialRequests approvedStorage @ [fst (submitCredentialRequest sampleRequest env1 approvedStorage)]
   \<and> (\<exists>cred s2. approveCredentialRequest ''req_1700000060000_a8s7d6f5g'' noMetadata env1
                (snd (submitCredentialRequest sampleRequest env1 approvedStorage))
             = (Inr ((fst (submitCredentialRequest sampleRequest env1 approvedStorage))\<lparr>r_status := Approved\<rparr>, cred), s2)
             \<and> c_status cred = Issued
             \<and> getIssuedCredentials s2
                 = getIssuedCredentials (snd (submitCredentialRequest sampleRequest env1 approvedStorage)) @ [cred]
             \<and> approveCredentialRequest ''req_1700000060000_a8s7d6f5g'' noMetadata env0 s2
                 = (Inl RequestNotPending, s2)
             \<and> rejectCredentialRequest ''req_1700000060000_a8s7d6f5g'' None s2
                 = (Inl RequestNotPending, s2))"
  proof -
    let ?sub = "submitCredentialRequest sampleRequest env1 approvedStorage"
    let ?rid = "''req_1700000060000_a8s7d6f5g''"
    have stored: "getCredentialRequests approvedStorage \<noteq> []" by code_simp
    have rid: "r_id (fst ?sub) = ?rid"
      by (simp add: submitCredentialRequest_def Let_def env1_def)
    have sub: "?sub = (fst ?sub, snd ?sub)" by simp
    have fresh: "\<forall>r \<in> set (getCredentialRequests approvedStorage). r_id r \<noteq> r_id (fst ?sub)"
      unfolding rid by code_simp
    note t = request_lifecycle [of sampleRequest env1 approvedStorage "fst ?sub" "snd ?sub" noMetadata env1]
    from t sub have a: "r_status (fst ?sub) = Pending
        \<and> getCredentialRequests (snd ?sub) = getCredentialRequests approvedStorage @ [fst ?sub]"
      by blast
    from t sub fresh obtain cred s2 where
      ok: "approveCredentialRequest ?rid noMetadata env1 (snd ?sub) = (Inr ((fst ?sub)\<lparr>r_status := Approved\<rparr>, cred), s2)"
      unfolding rid by blast
    from request_lifecycle [of sampleRequest env1 approvedStorage "fst ?sub" "snd ?sub" noMetadata env1
        ?rid "(fst ?sub)\<lparr>r_status := Approved\<rparr>" cred s2 noMetadata env0 None] ok
    have b: "c_status cred = Issued \<and> getIssuedCredentials s2 = getIssuedCredentials (snd ?sub) @ [cred]
        \<and> approveCredentialRequest ?rid noMetadata env0 s2 = (Inl RequestNotPending, s2)
        \<and> rejectCredentialRequest ?rid None s2 = (Inl RequestNotPending, s2)"
      by blast
    from stored a rid ok b show ?thesis by blast
  qed
  from first second show ?thesis by blast
qed

text \<open>
  C2 as stated fails where the clock and the random generator repeat an id: the store
  already holds an approved request with the id the new request gets, \<open>findIndex\<close> takes
  that first request, and the first approval of the new, pending request fails with
  \<open>RequestNotPending\<close>.
\<close>

theorem request_lifecycle_counterexample:
  "r_status (fst (submitCredentialRequest sampleRequest env0 approvedStorage)) = Pending
   \<and> r_id (fst (submitCredentialRequest sampleRequest env0 approvedStorage)) = ''req_1700000000000_k3j9x2m1q''
   \<and> r_id (hd (getCredentialRequests approvedStorage)) = ''req_1700000000000_k3j9x2m1q''
   \<and> r_status (hd (getCredentialRequests approvedStorage)) = Approved
   \<and> approveCredentialRequest ''req_1700000000000_k3j9x2m1q'' noMetadata env1
        (snd (submitCredentialRequest sampleRequest env0 approvedStorage))
       = (Inl RequestNotPending, snd (submitCredentialRequest sampleRequest env0 approvedStorage))"
  by code_simp

text \<open>
  C9. When approving or rejecting fails, the store after the call is the store before it:
  the requests list and the issued-credentials list are unchanged. Both fail with
  \<open>RequestNotFound\<close> when no stored request has the id, and with \<open>RequestNotPending\<close> when the
  first stored request with the id is not pending.
\<close>

theorem lifecycle_errors_atomic:
  "(approveCredentialRequest rid md e s = (Inl err, s') \<longrightarrow>
       s' = s \<and> credential_requests s' = credential_requests s \<and> issued_credentials s' = issued_credentials s)
   \<and> (rejectCredentialRequest rid nt s = (Inl err, s') \<longrightarrow>
       s' = s \<and> credential_requests s' = credential_requests s \<and> issued_credentials s' = issued_credentials s)
   \<and> ((\<forall>r \<in> set (getCredentialRequests s). r_id r \<noteq> rid) \<longrightarrow>
       approveCredentialRequest rid md e s = (Inl RequestNotFound, s)
       \<and> rejectCredentialRequest rid nt s = (Inl RequestNotFound, s))
   \<and> ((\<exists>r. find (\<lambda>req. r_id req = rid) (getCredentialRequests s) = Some r \<and> r_status r \<noteq> Pending) \<longrightarrow>
       approveCredentialRequest rid md e s = (Inl RequestNotPending, s)
       \<and> rejectCredentialRequest rid nt s = (Inl RequestNotPending, s))"
proof -
  have np: "approveCredentialRequest rid md e s = (Inl RequestNotPending, s)
       \<and> rejectCredentialRequest rid nt s = (Inl RequestNotPending, s)"
    if "find (\<lambda>req. r_id req = rid) (getCredentialRequests s) = Some r" "r_status r \<noteq> Pending" for r
  proof -
    from that(1) have "findIndex (\<lambda>req. r_id req = rid) (getCredentialRequests s) \<noteq> None"
      by (auto simp: findIndex_None find_Some_iff)
    then obtain i where i: "findIndex (\<lambda>req. r_id req = rid) (getCredentialRequests s) = Some i" by blast
    from findIndex_Some [OF i] that have "r_status (getCredentialRequests s ! i) \<noteq> Pending" by simp
    with i show ?thesis by (simp add: approve_not_pending reject_not_pending)
  qed
  show ?thesis
    using approve_fail_unchanged [of rid md e s err s'] reject_fail_unchanged [of rid nt s err s']
      approve_not_found [of s rid md e] reject_not_found [of s rid nt] np
    by blast
qed

theorem lifecycle_errors_atomic_witness:
  "fst (approveCredentialRequest ''req_1700000000000_k3j9x2m1q'' noMetadata env1 approvedStorage)
     = Inl RequestNotPending
   \<and> snd (approveCredentialRequest ''req_1700000000000_k3j9x2m1q'' noMetadata env1 approvedStorage)
     = approvedStorage
   \<and> rejectCredentialRequest ''req_1700000000000_k3j9x2m1q'' (Some ''late'') approvedStorage
     = (Inl RequestNotPending, approvedStorage)
   \<and> snd (rejectCredentialRequest ''req_1700000000000_k3j9x2m1q'' None approvedStorage) = approvedStorage
   \<and> approveCredentialRequest ''req_0'' noMetadata env1 approvedStorage = (Inl RequestNotFound, approvedStorage)
   \<and> rejectCredentialRequest ''req_0'' (Some ''late'') approvedStorage = (Inl RequestNotFound, approvedStorage)"
proof -
  let ?rid = "''req_1700000000000_k3j9x2m1q''"
  let ?app = "approveCredentialRequest ?rid noMetadata env1 approvedStorage"
  have failed: "fst ?app = Inl RequestNotPending" by code_simp
  then have eq: "?app = (Inl RequestNotPending, snd ?app)" by (metis prod.collapse)
  let ?req = "(fst (submitCredentialRequest sampleRequest env0 seededStorage))\<lparr>r_status := Approved\<rparr>"
  have "find (\<lambda>req. r_id req = ?rid) (getCredentialRequests approvedStorage) = Some ?req
          \<and> r_status ?req \<noteq> Pending"
    by code_simp
  then have fnd: "\<exists>r. find (\<lambda>req. r_id req = ?rid) (getCredentialRequests approvedStorage) = Some r
               \<and> r_status r \<noteq> Pending"
    by blast
  have none: "\<forall>r \<in> set (getCredentialRequests approvedStorage). r_id r \<noteq> ''req_0''" by code_simp
  let ?rej = "rejectCredentialRequest ?rid None approvedStorage"
  have "fst ?rej = Inl RequestNotPending" by code_simp
  then have eq': "?rej = (Inl RequestNotPending, snd ?rej)" by (metis prod.collapse)
  note t3 = lifecycle_errors_atomic [of ?rid noMetadata env1 approvedStorage RequestNotPending "snd ?rej" None]
  note t1 = lifecycle_errors_atomic [of ?rid noMetadata env1 approvedStorage RequestNotPending "snd ?app" "Some ''late''"]
  note t2 = lifecycle_errors_atomic [of "''req_0''" noMetadata env1 approvedStorage RequestNotPending approvedStorage "Some ''late''"]
  from t1 eq have "snd ?app = approvedStorage" by blast
  moreover from t1 fnd have "rejectCredentialRequest ?rid (Some ''late'') approvedStorage
     = (Inl RequestNotPending, approvedStorage)" by blast
  moreover from t3 eq' have "snd ?rej = approvedStorage" by blast
  moreover from t2 none have "approveCredentialRequest ''req_0'' noMetadata env1 approvedStorage = (Inl RequestNotFound, approvedStorage)
   \<and> rejectCredentialRequest ''req_0'' (Some ''late'') approvedStorage = (Inl RequestNotFound, approvedStorage)"
    by blast
  ultimately show ?thesis using failed by blast
qed

section \<open>Registration and sign-in\<close>

lemma saveToRegisteredUsers_fresh:
  assumes "findUserByEmail (p_email user) s = None"
  shows "getRegisteredUsers (saveToRegisteredUsers user s) = getRegisteredUsers s @ [user]"
    and "user_profile (saveToRegisteredUsers user s) = user_profile s"
    and "emails_unique s \<Longrightarrow> emails_unique (saveToRegisteredUsers user s)"
proof -
  from assms have no: "\<forall>u \<in> set (getRegisteredUsers s). toLowerCase (p_email u) \<noteq> toLowerCase (p_email user)"
    by (simp add: findUserByEmail_def find_None_iff)
  then have "filter (\<lambda>u. p_email u \<noteq> p_email user) (getRegisteredUsers s) = getRegisteredUsers s"
    by (auto simp: filter_id_conv)
  then show 1: "getRegisteredUsers (saveToRegisteredUsers user s) = getRegisteredUsers s @ [user]"
    by (simp add: saveToRegisteredUsers_def getRegisteredUsers_def Let_def)
  show "user_profile (saveToRegisteredUsers user s) = user_profile s"
    by (simp add: saveToRegisteredUsers_def Let_def)
  show "emails_unique s \<Longrightarrow> emails_unique (saveToRegisteredUsers user s)"
    using no by (auto simp: emails_unique_def 1)
qed

lemma findUserByEmail_Some:
  "(\<exists>u. findUserByEmail email s = Some u) \<longleftrightarrow>
   (\<exists>u \<in> set (getRegisteredUsers s). toLowerCase (p_email u) = toLowerCase email)"
  using find_None_iff [of "\<lambda>user. toLowerCase (p_email user) = toLowerCase email" "getRegisteredUsers s"]
  by (auto simp: findUserByEmail_def)

lemma registerStudent_cases:
  "(findUserByEmail (reg_email d) s \<noteq> None \<and> registerStudent d e s = (Inl DuplicateUser, s)) \<or>
   (findUserByEmail (reg_email d) s = None \<and>
    (\<exists>profile. registerStudent d e s = (Inr profile, saveToRegisteredUsers profile s)
       \<and> p_email profile = reg_email d \<and> p_role profile = Student))"
  by (cases "findUserByEmail (reg_email d) s") (simp_all add: registerStudent_def Let_def)

lemma registerStaff_cases:
  "(findUserByEmail (reg_email d) s \<noteq> None \<and> registerStaff d e s = (Inl DuplicateUser, s)) \<or>
   (findUserByEmail (reg_email d) s = None \<and>
    (\<exists>profile. registerStaff d e s = (Inr profile, saveToRegisteredUsers profile s)
       \<and> p_email profile = reg_email d \<and> p_role profile = Staff))"
  by (cases "findUserByEmail (reg_email d) s") (simp_all add: registerStaff_def Let_def)

lemma registerIssuer_cases:
  "(findUserByEmail (reg_email d) s \<noteq> None \<and> registerIssuer d e s = (Inl DuplicateUser, s)) \<or>
   (findUserByEmail (reg_email d) s = None \<and>
    (\<exists>profile. registerIssuer d e s = (Inr profile, saveToRegisteredUsers profile s)
       \<and> p_email profile = reg_email d \<and> p_role profile = Issuer))"
  by (cases "findUserByEmail (reg_email d) s") (simp_all add: registerIssuer_def Let_def)

text \<open>
  C3. Each of the three register operations preserves the invariant that the registry
  holds at most one user per lower-cased email; registering with an email whose lower-cased
  form is already registered fails with \<open>DuplicateUser\<close> and returns the store as it was.
\<close>

theorem registry_email_uniqueness:
  "(emails_unique s \<longrightarrow>
      emails_unique (snd (registerStudent d1 e s)) \<and> emails_unique (snd (registerStaff d2 e s))
      \<and> emails_unique (snd (registerIssuer d3 e s)))
   \<and> ((\<exists>u \<in> set (getRegisteredUsers s). toLowerCase (p_email u) = toLowerCase (reg_email d1))
        \<longrightarrow> registerStudent d1 e s = (Inl DuplicateUser, s))
   \<and> ((\<exists>u \<in> set (getRegisteredUsers s). toLowerCase (p_email u) = toLowerCase (reg_email d2))
        \<longrightarrow> registerStaff d2 e s = (Inl DuplicateUser, s))
   \<and> ((\<exists>u \<in> set (getRegisteredUsers s). toLowerCase (p_email u) = toLowerCase (reg_email d3))
        \<longrightarrow> registerIssuer d3 e s = (Inl DuplicateUser, s))"
proof -
  have inv1: "emails_unique (snd (registerStudent d1 e s))" if "emails_unique s"
    using registerStudent_cases [of d1 s e] that
    by (auto simp: saveToRegisteredUsers_fresh(3))
  have inv2: "emails_unique (snd (registerStaff d2 e s))" if "emails_unique s"
    using registerStaff_cases [of d2 s e] that
    by (auto simp: saveToRegisteredUsers_fresh(3))
  have inv3: "emails_unique (snd (registerIssuer d3 e s))" if "emails_unique s"
    using registerIssuer_cases [of d3 s e] that
    by (auto simp: saveToRegisteredUsers_fresh(3))
  have dup1: "registerStudent d1 e s = (Inl DuplicateUser, s)"
    if "\<exists>u \<in> set (getRegisteredUsers s). toLowerCase (p_email u) = toLowerCase (reg_email d1)"
    using registerStudent_cases [of d1 s e] that findUserByEmail_Some [of "reg_email d1" s] by auto
  have dup2: "registerStaff d2 e s = (Inl DuplicateUser, s)"
    if "\<exists>u \<in> set (getRegisteredUsers s). toLowerCase (p_email u) = toLowerCase (reg_email d2)"
    using registerStaff_cases [of d2 s e] that findUserByEmail_Some [of "reg_email d2" s] by auto
  have dup3: "registerIssuer d3 e s = (Inl DuplicateUser, s)"
    if "\<exists>u \<in> set (getRegisteredUsers s). toLowerCase (p_email u) = toLowerCase (reg_email d3)"
    using registerIssuer_cases [of d3 s e] that findUserByEmail_Some [of "reg_email d3" s] by auto
  show ?thesis using inv1 inv2 inv3 dup1 dup2 dup3 by blast
qed

theorem registry_email_uniqueness_witness:
  "emails_unique seededStorage
   \<and> emails_unique (snd (registerStudent newStudent env1 seededStorage))
   \<and> emails_unique (snd (registerStaff newStaff env1 seededStorage))
   \<and> emails_unique (snd (registerIssuer newIssuer env1 seededStorage))
   \<and> toLowerCase (p_email (testUsers env0 ! 0)) = toLowerCase (reg_email dupStudent)
   \<and> p_email (testUsers env0 ! 0) \<noteq> reg_email dupStudent
   \<and> registerStudent dupStudent env1 seededStorage = (Inl DuplicateUser, seededStorage)
   \<and> registerStaff dupStaff env1 seededStorage = (Inl DuplicateUser, seededStorage)
   \<and> registerIssuer dupIssuer env1 seededStorage = (Inl DuplicateUser, seededStorage)"
proof -
  have inv: "emails_unique seededStorage" by code_simp
  have same: "toLowerCase (p_email (testUsers env0 ! 0)) = toLowerCase (reg_email dupStudent)"
    by code_simp
  have differ: "p_email (testUsers env0 ! 0) \<noteq> reg_email dupStudent"
    by code_simp
  have users: "getRegisteredUsers seededStorage = testUsers env0"
    by (simp add: seededStorage_eq getRegisteredUsers_def)
  have mem: "testUsers env0 ! 0 \<in> set (testUsers env0)" "testUsers env0 ! 1 \<in> set (testUsers env0)"
    by (simp_all add: testUsers_def)
  from mem(1) same
  have dup1: "\<exists>u \<in> set (getRegisteredUsers seededStorage).
                toLowerCase (p_email u) = toLowerCase (reg_email dupStudent)"
    unfolding users by blast
  have "toLowerCase (p_email (testUsers env0 ! 1)) = toLowerCase (reg_email dupStaff)" by code_simp
  with mem(2)
  have dup2: "\<exists>u \<in> set (getRegisteredUsers seededStorage).
                toLowerCase (p_email u) = toLowerCase (reg_email dupStaff)"
    unfolding users by blast
  have "toLowerCase (p_email (testUsers env0 ! 0)) = toLowerCase (reg_email dupIssuer)" by code_simp
  with mem(1)
  have dup3: "\<exists>u \<in> set (getRegisteredUsers seededStorage).
                toLowerCase (p_email u) = toLowerCase (reg_email dupIssuer)"
    unfolding users by blast
  from registry_email_uniqueness [of seededStorage newStudent env1 newStaff newIssuer] inv
  have pres: "emails_unique (snd (registerStudent newStudent env1 seededStorage))
      \<and> emails_unique (snd (registerStaff newStaff env1 seededStorage))
      \<and> emails_unique (snd (registerIssuer newIssuer env1 seededStorage))" by blast
  from registry_email_uniqueness [of seededStorage dupStudent env1 dupStaff dupIssuer] dup1 dup2 dup3
  have "registerStudent dupStudent env1 seededStorage = (Inl DuplicateUser, seededStorage)
      \<and> registerStaff dupStaff env1 seededStorage = (Inl DuplicateUser, seededStorage)
      \<and> registerIssuer dupIssuer env1 seededStorage = (Inl DuplicateUser, seededStorage)" by blast
  with inv same differ pres show ?thesis by blast
qed

text \<open>
  C6. Registration never touches the session slot: after each register operation, on every
  input and in either outcome, the slot and what \<open>getCurrentUser\<close> reads from it are as
  before. Where no registered email has the same lower-cased form, the operation returns
  the new profile, built from the input, and appends it to the registered-users list.
\<close>

theorem registration_keeps_session:
  "user_profile (snd (registerStudent d1 e s)) = user_profile s
   \<and> user_profile (snd (registerStaff d2 e s)) = user_profile s
   \<and> user_profile (snd (registerIssuer d3 e s)) = user_profile s
   \<and> getCurrentUser (snd (registerStudent d1 e s)) = getCurrentUser s
   \<and> getCurrentUser (snd (registerStaff d2 e s)) = getCurrentUser s
   \<and> getCurrentUser (snd (registerIssuer d3 e s)) = getCurrentUser s
   \<and> ((\<forall>u \<in> set (getRegisteredUsers s). toLowerCase (p_email u) \<noteq> toLowerCase (reg_email d1)) \<longrightarrow>
        (\<exists>profile. fst (registerStudent d1 e s) = Inr profile
           \<and> p_name profile = reg_name d1 \<and> p_email profile = reg_email d1
           \<and> p_walletAddress profile = reg_walletAddress d1 \<and> p_role profile = Student
           \<and> getRegisteredUsers (snd (registerStudent d1 e s)) = getRegisteredUsers s @ [profile]))
   \<and> ((\<forall>u \<in> set (getRegisteredUsers s). toLowerCase (p_email u) \<noteq> toLowerCase (reg_email d2)) \<longrightarrow>
        (\<exists>profile. fst (registerStaff d2 e s) = Inr profile
           \<and> p_name profile = reg_name d2 \<and> p_email profile = reg_email d2
           \<and> p_walletAddress profile = reg_walletAddress d2 \<and> p_role profile = Staff
           \<and> getRegisteredUsers (snd (registerStaff d2 e s)) = getRegisteredUsers s @ [profile]))
   \<and> ((\<forall>u \<in> set (getRegisteredUsers s). toLowerCase (p_email u) \<noteq> toLowerCase (reg_email d3)) \<longrightarrow>
        (\<exists>profile. fst (registerIssuer d3 e s) = Inr profile
           \<and> p_name profile = reg_name d3 \<and> p_email profile = reg_email d3
           \<and> p_walletAddress profile = reg_walletAddress d3 \<and> p_role profile = Issuer
           \<and> getRegisteredUsers (snd (registerIssuer d3 e s)) = getRegisteredUsers s @ [profile]))"
proof -
  have slot1: "user_profile (snd (registerStudent d1 e s)) = user_profile s"
    by (simp add: registerStudent_def saveToRegisteredUsers_def Let_def split: option.split)
  have slot2: "user_profile (snd (registerStaff d2 e s)) = user_profile s"
    by (simp add: registerStaff_def saveToRegisteredUsers_def Let_def split: option.split)
  have slot3: "user_profile (snd (registerIssuer d3 e s)) = user_profile s"
    by (simp add: registerIssuer_def saveToRegisteredUsers_def Let_def split: option.split)
  have ok1: "\<exists>profile. fst (registerStudent d1 e s) = Inr profile
           \<and> p_name profile = reg_name d1 \<and> p_email profile = reg_email d1
           \<and> p_walletAddress profile = reg_walletAddress d1 \<and> p_role profile = Student
           \<and> getRegisteredUsers (snd (registerStudent d1 e s)) = getRegisteredUsers s @ [profile]"
    if "\<forall>u \<in> set (getRegisteredUsers s). toLowerCase (p_email u) \<noteq> toLowerCase (reg_email d1)"
  proof -
    from that have none: "findUserByEmail (reg_email d1) s = None"
      by (simp add: findUserByEmail_def find_None_iff)
    then show ?thesis
      by (simp add: registerStudent_def Let_def saveToRegisteredUsers_fresh(1))
  qed
  have ok2: "\<exists>profile. fst (registerStaff d2 e s) = Inr profile
           \<and> p_name profile = reg_name d2 \<and> p_email profile = reg_email d2
           \<and> p_walletAddress profile = reg_walletAddress d2 \<and> p_role profile = Staff
           \<and> getRegisteredUsers (snd (registerStaff d2 e s)) = getRegisteredUsers s @ [profile]"
    if "\<forall>u \<in> set (getRegisteredUsers s). toLowerCase (p_email u) \<noteq> toLowerCase (reg_email d2)"
  proof -
    from that have none: "findUserByEmail (reg_email d2) s = None"
      by (simp add: findUserByEmail_def find_None_iff)
    then show ?thesis
      by (simp add: registerStaff_def Let_def saveToRegisteredUsers_fresh(1))
  qed
  have ok3: "\<exists>profile. fst (registerIssuer d3 e s) = Inr profile
           \<and> p_name profile = reg_name d3 \<and> p_email profile = reg_email d3
           \<and> p_walletAddress profile = reg_walletAddress d3 \<and> p_role profile = Issuer
           \<and> getRegisteredUsers (snd (registerIssuer d3 e s)) = getRegisteredUsers s @ [profile]"
    if "\<forall>u \<in> set (getRegisteredUsers s). toLowerCase (p_email u) \<noteq> toLowerCase (reg_email d3)"
  proof -
    from that have none: "findUserByEmail (reg_email d3) s = None"
      by (simp add: findUserByEmail_def find_None_iff)
    then show ?thesis
      by (simp add: registerIssuer_def Let_def saveToRegisteredUsers_fresh(1))
  qed
  show ?thesis
    using slot1 slot2 slot3 ok1 ok2 ok3 by (simp add: getCurrentUser_def)
qed

theorem registration_keeps_session_witness:
  "getCurrentUser staffSession = Some (testUsers env0 ! 1)
   \<and> getCurrentUser (snd (registerStudent newStudent env1 staffSession)) = Some (testUsers env0 ! 1)
   \<and> getCurrentUser (snd (registerStaff newStaff env1 staffSession)) = Some (testUsers env0 ! 1)
   \<and> getCurrentUser (snd (registerIssuer newIssuer env1 staffSession)) = Some (testUsers env0 ! 1)
   \<and> getCurrentUser (snd (registerStudent dupStudent env1 staffSession)) = Some (testUsers env0 ! 1)
   \<and> (\<exists>profile. fst (registerStudent newStudent env1 staffSession) = Inr profile
         \<and> p_email profile = ''bo@test.com'' \<and> p_role profile = Student
         \<and> getRegisteredUsers (snd (registerStudent newStudent env1 staffSession))
             = getRegisteredUsers staffSession @ [profile])
   \<and> (\<exists>profile. fst (registerStaff newStaff env1 staffSession) = Inr profile
         \<and> p_email profile = ''cy@university.edu'' \<and> p_role profile = Staff
         \<and> getRegisteredUsers (snd (registerStaff newStaff env1 staffSession))
             = getRegisteredUsers staffSession @ [profile])
   \<and> (\<exists>profile. fst (registerIssuer newIssuer env1 staffSession) = Inr profile
         \<and> p_email profile = ''di@techacademy.edu'' \<and> p_role profile = Issuer
         \<and> getRegisteredUsers (snd (registerIssuer newIssuer env1 staffSession))
             = getRegisteredUsers staffSession @ [profile])"
proof -
  have cur: "getCurrentUser staffSession = Some (testUsers env0 ! 1)" by code_simp
  have fresh1: "\<forall>u \<in> set (getRegisteredUsers staffSession).
                 toLowerCase (p_email u) \<noteq> toLowerCase (reg_email newStudent)" by code_simp
  have fresh2: "\<forall>u \<in> set (getRegisteredUsers staffSession).
                 toLowerCase (p_email u) \<noteq> toLowerCase (reg_email newStaff)" by code_simp
  have fresh3: "\<forall>u \<in> set (getRegisteredUsers staffSession).
                 toLowerCase (p_email u) \<noteq> toLowerCase (reg_email newIssuer)" by code_simp
  have em: "reg_email newStudent = ''bo@test.com''" "reg_email newStaff = ''cy@university.edu''"
    "reg_email newIssuer = ''di@techacademy.edu''"
    by (simp_all add: newStudent_def newStaff_def newIssuer_def)
  from registration_keeps_session [of newStudent env1 staffSession newStaff newIssuer]
    fresh1 fresh2 fresh3 cur
  have a: "getCurrentUser (snd (registerStudent newStudent env1 staffSession)) = Some (testUsers env0 ! 1)
   \<and> getCurrentUser (snd (registerStaff newStaff env1 staffSession)) = Some (testUsers env0 ! 1)
   \<and> getCurrentUser (snd (registerIssuer newIssuer env1 staffSession)) = Some (testUsers env0 ! 1)
   \<and> (\<exists>profile. fst (registerStudent newStudent env1 staffSession) = Inr profile
         \<and> p_email profile = reg_email newStudent \<and> p_role profile = Student
         \<and> getRegisteredUsers (snd (registerStudent newStudent env1 staffSession))
             = getRegisteredUsers staffSession @ [profile])
   \<and> (\<exists>profile. fst (registerStaff newStaff env1 staffSession) = Inr profile
         \<and> p_email profile = reg_email newStaff \<and> p_role profile = Staff
         \<and> getRegisteredUsers (snd (registerStaff newStaff env1 staffSession))
             = getRegisteredUsers staffSession @ [profile])
   \<and> (\<exists>profile. fst (registerIssuer newIssuer env1 staffSession) = Inr profile
         \<and> p_email profile = reg_email newIssuer \<and> p_role profile = Issuer
         \<and> getRegisteredUsers (snd (registerIssuer newIssuer env1 staffSession))
             = getRegisteredUsers staffSession @ [profile])"
    by (simp only:) blast
  from registration_keeps_session [of dupStudent env1 staffSession newStaff newIssuer] cur
  have b: "getCurrentUser (snd (registerStudent dupStudent env1 staffSession)) = Some (testUsers env0 ! 1)"
    by simp
  from cur a b show ?thesis unfolding em by blast
qed

text \<open>
  C5, as the program has it. Student sign-in first checks the format of both inputs: a
  malformed email fails with \<open>InvalidEmail\<close>, and a well-formed email with a malformed wallet
  address fails with \<open>InvalidWalletAddress\<close>. With both well-formed, and the wallet address
  different from the stored one of every registered user with that lower-cased email, it
  returns null and leaves the store unchanged. Staff and issuer sign-in take an email only:
  for a well-formed email the outcome is decided by the first registered user with that
  lower-cased email and that user's role, and no wallet address is compared.
\<close>

theorem signIn_mismatch:
  "(isValidEmail (si_email d) \<and> isValidWallet (si_walletAddress d)
      \<and> (\<forall>u \<in> set (getRegisteredUsers s).
            toLowerCase (p_email u) = toLowerCase (si_email d) \<longrightarrow> p_walletAddress u \<noteq> si_walletAddress d)
      \<longrightarrow> signInStudent d s = (Inr None, s))
   \<and> (\<not> isValidEmail (si_email d) \<longrightarrow> signInStudent d s = (Inl InvalidEmail, s))
   \<and> (isValidEmail (si_email d) \<and> \<not> isValidWallet (si_walletAddress d)
      \<longrightarrow> signInStudent d s = (Inl InvalidWalletAddress, s))
   \<and> (isValidEmail (si_email d') \<longrightarrow>
        signInStaff d' s =
          (case findUserByEmail (si_email d') s of
             None \<Rightarrow> (Inr None, s)
           | Some u \<Rightarrow> if p_role u = Staff then (Inr (Some u), saveUserProfile u s) else (Inr None, s))
      \<and> signInIssuer d' s =
          (case findUserByEmail (si_email d') s of
             None \<Rightarrow> (Inr None, s)
           | Some u \<Rightarrow> if p_role u = Issuer then (Inr (Some u), saveUserProfile u s) else (Inr None, s)))"
proof -
  have student: "signInStudent d s = (Inr None, s)"
    if "isValidEmail (si_email d)" "isValidWallet (si_walletAddress d)"
      "\<forall>u \<in> set (getRegisteredUsers s).
            toLowerCase (p_email u) = toLowerCase (si_email d) \<longrightarrow> p_walletAddress u \<noteq> si_walletAddress d"
  proof -
    from that(3) have "findUserByEmailAndWallet (si_email d) (si_walletAddress d) s = None"
      by (auto simp: findUserByEmailAndWallet_def find_None_iff)
    with that(1,2) show ?thesis by (simp add: signInStudent_def)
  qed
  have prof: "profileOf u = u" for u by (simp add: profileOf_def)
  have staff: "signInStaff d' s =
          (case findUserByEmail (si_email d') s of
             None \<Rightarrow> (Inr None, s)
           | Some u \<Rightarrow> if p_role u = Staff then (Inr (Some u), saveUserProfile u s) else (Inr None, s))"
    if "isValidEmail (si_email d')"
    using that by (simp add: signInStaff_def prof Let_def split: option.split)
  have issuer: "signInIssuer d' s =
          (case findUserByEmail (si_email d') s of
             None \<Rightarrow> (Inr None, s)
           | Some u \<Rightarrow> if p_role u = Issuer then (Inr (Some u), saveUserProfile u s) else (Inr None, s))"
    if "isValidEmail (si_email d')"
    using that by (simp add: signInIssuer_def prof Let_def split: option.split)
  show ?thesis
    using student staff issuer by (simp add: signInStudent_def)
qed

theorem signIn_mismatch_witness:
  "isValidEmail ''student@test.com''
   \<and> isValidWallet ''0x9876543210fedcba9876543210fedcba98765432''
   \<and> signInStudent \<lparr>si_email = ''student@test.com'',
                     si_walletAddress = ''0x9876543210fedcba9876543210fedcba98765432''\<rparr> seededStorage
       = (Inr None, seededStorage)
   \<and> \<not> isValidEmail ''student''
   \<and> signInStudent \<lparr>si_email = ''student'', si_walletAddress = ''0xZZ''\<rparr> seededStorage
       = (Inl InvalidEmail, seededStorage)
   \<and> \<not> isValidWallet ''0xZZ''
   \<and> signInStudent \<lparr>si_email = ''student@test.com'', si_walletAddress = ''0xZZ''\<rparr> seededStorage
       = (Inl InvalidWalletAddress, seededStorage)
   \<and> isValidEmail ''Staff@University.edu''
   \<and> signInStaff \<lparr>si_email = ''Staff@University.edu''\<rparr> seededStorage
       = (Inr (Some (testUsers env0 ! 1)), saveUserProfile (testUsers env0 ! 1) seededStorage)
   \<and> signInIssuer \<lparr>si_email = ''Staff@University.edu''\<rparr> seededStorage = (Inr None, seededStorage)"
proof -
  let ?d = "\<lparr>si_email = ''student@test.com'',
             si_walletAddress = ''0x9876543210fedcba9876543210fedcba98765432''\<rparr>"
  let ?b = "\<lparr>si_email = ''student'', si_walletAddress = ''0xZZ''\<rparr>"
  let ?w = "\<lparr>si_email = ''student@test.com'', si_walletAddress = ''0xZZ''\<rparr>"
  let ?t = "\<lparr>si_email = ''Staff@University.edu''\<rparr>"
  have e1: "isValidEmail ''student@test.com''" by code_simp
  have w1: "isValidWallet ''0x9876543210fedcba9876543210fedcba98765432''" by code_simp
  have differ: "\<forall>u \<in> set (getRegisteredUsers seededStorage).
            toLowerCase (p_email u) = toLowerCase (si_email ?d) \<longrightarrow> p_walletAddress u \<noteq> si_walletAddress ?d"
    by code_simp
  have e2: "\<not> isValidEmail ''student''" by code_simp
  have w2: "\<not> isValidWallet ''0xZZ''" by code_simp
  have e3: "isValidEmail ''Staff@University.edu''" by code_simp
  have f3: "findUserByEmail ''Staff@University.edu'' seededStorage = Some (testUsers env0 ! 1)" by code_simp
  have r3: "p_role (testUsers env0 ! 1) = Staff" by code_simp
  from signIn_mismatch [of ?d seededStorage ?t] e1 w1 differ
  have a: "signInStudent ?d seededStorage = (Inr None, seededStorage)" by simp
  from signIn_mismatch [of ?b seededStorage ?t] e2
  have b: "signInStudent ?b seededStorage = (Inl InvalidEmail, seededStorage)" by simp
  from signIn_mismatch [of ?w seededStorage ?t] e1 w2
  have c: "signInStudent ?w seededStorage = (Inl InvalidWalletAddress, seededStorage)" by simp
  from signIn_mismatch [of ?d seededStorage ?t] e3 f3 r3
  have d: "signInStaff ?t seededStorage = (Inr (Some (testUsers env0 ! 1)), saveUserProfile (testUsers env0 ! 1) seededStorage)"
    and e: "signInIssuer ?t seededStorage = (Inr None, seededStorage)" by simp_all
  from e1 w1 a e2 b w2 c e3 d e show ?thesis by blast
qed

text \<open>
  C5 as stated fails: the seeded student is registered under this email with another
  wallet address, and signing in with the wallet address \<open>0xZZ\<close> throws instead of returning
  null.
\<close>

theorem signIn_mismatch_counterexample:
  "find (\<lambda>u. toLowerCase (p_email u) = toLowerCase ''student@test.com'') (getRegisteredUsers seededStorage)
     = Some (testUsers env0 ! 0)
   \<and> p_role (testUsers env0 ! 0) = Student
   \<and> p_walletAddress (testUsers env0 ! 0) \<noteq> ''0xZZ''
   \<and> signInStudent \<lparr>si_email = ''student@test.com'', si_walletAddress = ''0xZZ''\<rparr> seededStorage
       = (Inl InvalidWalletAddress, seededStorage)"
  by code_simp

section \<open>Validators and trimming\<close>

lemma takeWhile_full: "length (takeWhile p s) = length s \<longleftrightarrow> list_all p s"
  by (induction s) (auto simp: list_all_iff)

lemma test_class_only:
  "test [Class p lo hi] s \<longleftrightarrow>
     lo \<le> length s \<and> (case hi of None \<Rightarrow> True | Some h \<Rightarrow> length s \<le> h) \<and> list_all p s"
proof -
  define L where "L = length (takeWhile p s)"
  define top where "top = (case hi of None \<Rightarrow> L | Some h \<Rightarrow> min h L)"
  have le: "top \<le> length s"
    using length_takeWhile_le [of p s] by (auto simp: top_def L_def split: option.split)
  have "test [Class p lo hi] s = list_ex (\<lambda>k. length s \<le> k) [lo ..< Suc top]"
    by (simp only: test.simps Let_def top_def L_def drop_eq_Nil)
  also have "\<dots> \<longleftrightarrow> (\<exists>k. lo \<le> k \<and> k \<le> top \<and> length s \<le> k)"
    by (simp only: list_ex_iff set_upt atLeastLessThan_iff Bex_def less_Suc_eq_le conj_assoc)
  also have "\<dots> \<longleftrightarrow> lo \<le> length s \<and> length s \<le> top"
  proof
    assume "\<exists>k. lo \<le> k \<and> k \<le> top \<and> length s \<le> k"
    then obtain k where "lo \<le> k" "k \<le> top" "length s \<le> k" by blast
    with le show "lo \<le> length s \<and> length s \<le> top" by linarith
  next
    assume "lo \<le> length s \<and> length s \<le> top"
    then show "\<exists>k. lo \<le> k \<and> k \<le> top \<and> length s \<le> k" by (intro exI [of _ "length s"]) simp
  qed
  also have "\<dots> \<longleftrightarrow> lo \<le> length s \<and> (case hi of None \<Rightarrow> True | Some h \<Rightarrow> length s \<le> h) \<and> L = length s"
    using length_takeWhile_le [of p s] by (auto simp: top_def L_def split: option.split)
  finally show ?thesis by (simp add: L_def takeWhile_full)
qed

lemma test_Lit: "test (Lit c # r) s \<longleftrightarrow> (\<exists>xs. s = c # xs \<and> test r xs)"
  by (cases s) auto

lemma test_hexRegex: "test hexRegex t = hexForm t"
proof -
  have "test hexRegex t \<longleftrightarrow> (\<exists>h. t = ''0x'' @ h \<and> 1 \<le> length h \<and> length h \<le> 64 \<and> list_all hexDigit h)"
    unfolding hexRegex_def by (simp only: test_Lit test_class_only) auto
  also have "\<dots> \<longleftrightarrow> hexForm t"
    unfolding hexForm_def
    by (metis append_take_drop_id append_eq_conv_conj length_Cons list.size(3) numeral_2_eq_2)
  finally show ?thesis .
qed

lemma takeWhile_length_ge:
  "k \<le> length (takeWhile p s) \<longleftrightarrow> k \<le> length s \<and> list_all p (take k s)"
proof (induction s arbitrary: k)
  case Nil
  then show ?case by simp
next
  case (Cons x xs)
  then show ?case by (cases k) auto
qed

lemma test_lits4: "test [Lit a, Lit b, Lit c, Lit d] s \<longleftrightarrow> s = [a, b, c, d]"
  by (simp only: test_Lit test.simps(1)) auto

lemma test_namedRegex: "test namedRegex t = namedForm t"
proof -
  have "test namedRegex t \<longleftrightarrow>
          (\<exists>k. 1 \<le> k \<and> k \<le> length (takeWhile nameChar t) \<and> drop k t = ''.apt'')"
    unfolding namedRegex_def
    by (simp only: test.simps(3) Let_def option.case test_lits4 list_ex_iff set_upt
          atLeastLessThan_iff Bex_def less_Suc_eq_le conj_assoc)
  also have "\<dots> \<longleftrightarrow> (\<exists>k. 1 \<le> k \<and> k \<le> length t \<and> list_all nameChar (take k t) \<and> drop k t = ''.apt'')"
    by (simp only: takeWhile_length_ge conj_assoc)
  also have "\<dots> \<longleftrightarrow> namedForm t"
  proof
    assume "\<exists>k. 1 \<le> k \<and> k \<le> length t \<and> list_all nameChar (take k t) \<and> drop k t = ''.apt''"
    then obtain k where k: "1 \<le> k" "k \<le> length t" "list_all nameChar (take k t)" "drop k t = ''.apt''"
      by blast
    from k(4) have "length (drop k t) = 4" by simp
    then have "k = length t - 4" "4 < length t" using k(1,2) by simp_all
    with k show "namedForm t" by (simp add: namedForm_def)
  next
    assume "namedForm t"
    then have "1 \<le> length t - 4 \<and> length t - 4 \<le> length t
                 \<and> list_all nameChar (take (length t - 4) t) \<and> drop (length t - 4) t = ''.apt''"
      by (auto simp: namedForm_def)
    then show "\<exists>k. 1 \<le> k \<and> k \<le> length t \<and> list_all nameChar (take k t) \<and> drop k t = ''.apt''"
      by blast
  qed
  finally show ?thesis .
qed

lemma dropWhile_idem: "dropWhile p (dropWhile p s) = dropWhile p s"
  by (induction s) auto

lemma trim_idem: "trim (trim s) = trim s"
proof -
  let ?w = isWhiteSpace
  let ?r = "dropWhile ?w (rev (dropWhile ?w s))"
  have front: "dropWhile ?w (rev ?r) = rev ?r"
  proof (cases "?r = []")
    case True
    show ?thesis unfolding True by simp
  next
    case False
    then have ne: "rev (dropWhile ?w s) \<noteq> []" by (metis dropWhile.simps(1))
    then have "dropWhile ?w s \<noteq> []" by simp
    then have "\<not> ?w (hd (dropWhile ?w s))" by (rule hd_dropWhile)
    moreover have "hd (rev ?r) = last ?r" using False by (simp add: hd_rev)
    moreover have "last ?r = last (rev (dropWhile ?w s))"
      using False by (metis (no_types, lifting) last_appendR takeWhile_dropWhile_id)
    moreover have "last (rev (dropWhile ?w s)) = hd (dropWhile ?w s)"
      using \<open>dropWhile ?w s \<noteq> []\<close> by (simp add: last_rev)
    ultimately have "\<not> ?w (hd (rev ?r))" by simp
    then show ?thesis using False by (cases "rev ?r") auto
  qed
  show ?thesis
    unfolding trim_def front by (simp add: dropWhile_idem)
qed

lemma isValidWalletAddress_trim: "isValidWalletAddress (trim a) = isValidWalletAddress a"
proof (cases "a = []")
  case True
  then show ?thesis by (simp add: trim_def)
next
  case False
  show ?thesis
  proof (cases "trim a = []")
    case True
    with False show ?thesis by (simp add: isValidWalletAddress_def startsWith_def)
  next
    case ne: False
    with False show ?thesis by (simp add: isValidWalletAddress_def trim_idem)
  qed
qed

lemma includes_nonempty: "includes_str t p \<Longrightarrow> p \<noteq> [] \<Longrightarrow> t \<noteq> []"
  by (cases t) auto

lemma valid_wallet_trim_nonempty: "isValidWalletAddress a \<Longrightarrow> trim a \<noteq> []"
  by (auto simp: isValidWalletAddress_def Let_def startsWith_def split: if_splits)

lemma valid_id_trim_nonempty: "isValidCredentialId c \<Longrightarrow> trim c \<noteq> []"
  by (auto simp: isValidCredentialId_def Let_def split: if_splits)

text \<open>
  C8. On every string the validator of the auth module and the validator of the URL
  utilities return the same boolean, and both compute the contract of the specification:
  the empty input is invalid; otherwise the input is trimmed and must have the hex form if
  it starts with \<open>0x\<close>, else the named form if it contains \<open>.apt\<close>, else a length from 6 to
  100.
\<close>

theorem wallet_validators_equal:
  "isValidWallet s = isValidWalletAddress s \<and> isValidWalletAddress s = wallet_contract s"
  by (simp add: isValidWallet_def isValidWalletAddress_def wallet_contract_def
        test_hexRegex test_namedRegex Let_def)

theorem wallet_validators_equal_witness:
  "isValidWallet ''0xAB12'' \<and> isValidWalletAddress ''0xAB12'' \<and> wallet_contract ''0xAB12''
   \<and> \<not> isValidWallet ''0xZZ'' \<and> \<not> isValidWalletAddress ''0xZZ'' \<and> \<not> wallet_contract ''0xZZ''
   \<and> isValidWallet '' alice.apt '' \<and> isValidWalletAddress '' alice.apt '' \<and> wallet_contract '' alice.apt ''
   \<and> \<not> isValidWallet ''ab'' \<and> \<not> isValidWalletAddress ''ab'' \<and> \<not> wallet_contract ''ab''"
proof -
  have a: "isValidWallet ''0xAB12''" and b: "\<not> isValidWallet ''0xZZ''"
    and c: "isValidWallet '' alice.apt ''" and d: "\<not> isValidWallet ''ab''"
    by code_simp+
  from a b c d
    wallet_validators_equal [of "''0xAB12''"] wallet_validators_equal [of "''0xZZ''"]
    wallet_validators_equal [of "'' alice.apt ''"] wallet_validators_equal [of "''ab''"]
  show ?thesis by blast
qed

section \<open>Display of a URL: properties\<close>

lemma toInteger_half: "0 \<le> n \<Longrightarrow> toInteger (of_int n / 2) = n div 2"
proof -
  assume "0 \<le> n"
  have "\<lfloor>(of_int n :: rat) / of_int 2\<rfloor> = n div 2" by (rule floor_divide_of_int_eq)
  moreover have "\<not> (of_int n :: rat) / 2 < 0" using \<open>0 \<le> n\<close> by simp
  ultimately show ?thesis by (simp add: toInteger_def)
qed

lemma toInteger_diff_half:
  assumes "n \<le> 2 * l"
  shows "toInteger (of_int l - of_int n / 2) = (2 * l - n) div 2"
proof -
  have e: "(of_int l :: rat) - of_int n / 2 = of_int (2 * l - n) / of_int 2" by (simp add: field_simps)
  have "\<lfloor>(of_int (2 * l - n) :: rat) / of_int 2\<rfloor> = (2 * l - n) div 2" by (rule floor_divide_of_int_eq)
  moreover have "\<not> (of_int (2 * l - n) :: rat) / of_int 2 < 0" using assms by simp
  ultimately show ?thesis unfolding e toInteger_def by simp
qed

lemma sanitize_long:
  assumes "0 < n" "n < int (length u)"
  shows "sanitizeUrlForDisplay u n
           = take (nat (n div 2)) u @ ''...'' @ drop (length u - nat ((n + 1) div 2)) u"
proof -
  let ?l = "int (length u)"
  have h1: "toInteger (of_int n / 2) = n div 2" using assms by (simp add: toInteger_half)
  have h2: "toInteger (of_nat (length u) - of_int n / 2) = (2 * ?l - n) div 2"
    using assms toInteger_diff_half [of n ?l] by simp
  have h0: "toInteger 0 = 0" by (simp add: toInteger_def)
  have d: "(2 * ?l - n) div 2 = ?l - (n + 1) div 2" by presburger
  have "0 \<le> n div 2" "n div 2 \<le> ?l" using assms by presburger+
  then have start: "substring u 0 (Some (of_int n / 2)) = take (nat (n div 2)) u"
    by (simp add: substring_def h0 h1 Let_def min_def max_def)
  have "0 \<le> ?l - (n + 1) div 2" "?l - (n + 1) div 2 \<le> ?l" using assms by presburger+
  then have tail: "substring u (of_nat (length u) - of_int n / 2) None = drop (nat (?l - (n + 1) div 2)) u"
    by (simp add: substring_def h2 d Let_def min_def max_def)
  have "nat (?l - (n + 1) div 2) = length u - nat ((n + 1) div 2)" using assms by simp
  with start tail show ?thesis using assms by (simp add: sanitizeUrlForDisplay_def Let_def)
qed

text \<open>
  C7, as the program has it. For every string \<open>u\<close> and every positive integer \<open>n\<close>:
  \<open>sanitizeUrlForDisplay u n\<close> is \<open>u\<close> when \<open>u\<close> has at most \<open>n\<close> characters, and applying it
  again changes nothing; otherwise it is the first \<open>n div 2\<close> characters, the marker
  \<open>...\<close> and the last \<open>(n + 1) div 2\<close> characters (the half rounded up), of length exactly
  \<open>n + 3\<close>. The function is total.
\<close>

theorem sanitize_shape:
  assumes "0 < n"
  shows "(int (length u) \<le> n \<longrightarrow>
            sanitizeUrlForDisplay u n = u
            \<and> sanitizeUrlForDisplay (sanitizeUrlForDisplay u n) n = sanitizeUrlForDisplay u n)
       \<and> (n < int (length u) \<longrightarrow>
            sanitizeUrlForDisplay u n
              = take (nat (n div 2)) u @ ''...'' @ drop (length u - nat ((n + 1) div 2)) u
            \<and> length (take (nat (n div 2)) u) = nat (n div 2)
            \<and> length (drop (length u - nat ((n + 1) div 2)) u) = nat ((n + 1) div 2)
            \<and> length (sanitizeUrlForDisplay u n) = nat n + 3)"
proof -
  have short: "sanitizeUrlForDisplay u n = u" if "int (length u) \<le> n"
    using that by (simp add: sanitizeUrlForDisplay_def)
  have long: "length (take (nat (n div 2)) u) = nat (n div 2)
            \<and> length (drop (length u - nat ((n + 1) div 2)) u) = nat ((n + 1) div 2)
            \<and> length (sanitizeUrlForDisplay u n) = nat n + 3" if "n < int (length u)"
  proof -
    have a: "nat (n div 2) \<le> length u" using assms that by linarith
    have b: "nat ((n + 1) div 2) \<le> length u" using assms that by linarith
    have c: "nat (n div 2) + nat ((n + 1) div 2) = nat n" using assms by linarith
    from a b c show ?thesis
      unfolding sanitize_long [OF assms that] by (simp add: min_def)
  qed
  show ?thesis using short long sanitize_long [OF assms] by simp
qed

theorem sanitize_shape_witness:
  "sanitizeUrlForDisplay ''abcdefgh'' 8 = ''abcdefgh''
   \<and> sanitizeUrlForDisplay (sanitizeUrlForDisplay ''abcdefgh'' 8) 8 = ''abcdefgh''
   \<and> sanitizeUrlForDisplay ''abcdefgh'' 5 = ''ab...fgh''
   \<and> length (sanitizeUrlForDisplay ''abcdefgh'' 5) = 8
   \<and> sanitizeUrlForDisplay ''abcdefgh'' 4 = ''ab...gh''"
proof -
  have p8: "(0::int) < 8" and p5: "(0::int) < 5" and p4: "(0::int) < 4" by simp_all
  from sanitize_shape [OF p8, of "''abcdefgh''"]
  have a: "sanitizeUrlForDisplay ''abcdefgh'' 8 = ''abcdefgh''
   \<and> sanitizeUrlForDisplay (sanitizeUrlForDisplay ''abcdefgh'' 8) 8 = ''abcdefgh''" by simp
  from sanitize_shape [OF p5, of "''abcdefgh''"]
  have b: "sanitizeUrlForDisplay ''abcdefgh'' 5 = ''ab...fgh'' \<and> length (sanitizeUrlForDisplay ''abcdefgh'' 5) = 8"
    by simp
  from sanitize_shape [OF p4, of "''abcdefgh''"]
  have c: "sanitizeUrlForDisplay ''abcdefgh'' 4 = ''ab...gh''" by simp
  from a b c show ?thesis by blast
qed

text \<open>
  C7 as stated fails for an odd \<open>n\<close>: with \<open>n = 5\<close> the result ends with three characters of
  the input, not with \<open>5 / 2\<close> of them, because the start index \<open>8 - 2.5\<close> of the tail is
  truncated to 5.
\<close>

theorem sanitize_odd_counterexample:
  "sanitizeUrlForDisplay ''abcdefgh'' 5 = ''ab'' @ ''...'' @ ''fgh''
   \<and> length ''fgh'' \<noteq> 5 div 2
   \<and> sanitizeUrlForDisplay ''abcdefgh'' 5
       \<noteq> take (5 div 2) ''abcdefgh'' @ ''...'' @ drop (length ''abcdefgh'' - 5 div 2) ''abcdefgh''"
  by code_simp

section \<open>Query strings: serializing and parsing\<close>

lemma code_less_256: "code c < 256"
  by (simp add: code_def)

lemma code_char_of: "b < 256 \<Longrightarrow> code (char_of b) = b"
  by (simp add: code_def)

lemma hex_table:
  "list_all (\<lambda>k. hexValue (code (hexUpper k)) = Some k
                \<and> 48 \<le> code (hexUpper k) \<and> code (hexUpper k) \<le> 70 \<and> code (hexUpper k) \<noteq> 61
                \<and> code (hexUpper k) \<noteq> 63)
     [0 ..< 16]"
  by code_simp

lemma hexUpper_facts:
  assumes "k < 16"
  shows "hexValue (code (hexUpper k)) = Some k"
    and "48 \<le> code (hexUpper k)" and "code (hexUpper k) \<le> 70"
    and "code (hexUpper k) \<noteq> 61" and "code (hexUpper k) \<noteq> 63"
  using hex_table assms unfolding list_all_iff by auto

lemma serialize_byte_safe:
  assumes "b < 256"
  shows "list_all query_safe (serialize_byte b)"
proof -
  have d: "b div 16 < 16" and m: "b mod 16 < 16" using assms by simp_all
  consider "b = 32" | "b \<noteq> 32" "unreserved b" | "b \<noteq> 32" "\<not> unreserved b" by blast
  then show ?thesis
  proof cases
    case 1
    then show ?thesis by (simp add: serialize_byte_def query_safe_def code_def)
  next
    case 2
    from 2(2) have "b < 128 \<and> b \<noteq> 35 \<and> b \<noteq> 38 \<and> b \<noteq> 61 \<and> b \<noteq> 63"
      unfolding unreserved_def by auto
    with 2 assms show ?thesis by (simp add: serialize_byte_def query_safe_def code_char_of)
  next
    case 3
    have p: "query_safe CHR ''%''" by (simp add: query_safe_def code_def)
    have h: "query_safe (hexUpper k)" if "k < 16" for k
      using hexUpper_facts(2-5) [OF that] by (simp add: query_safe_def)
    from 3 p h [OF d] h [OF m] show ?thesis by (simp add: serialize_byte_def)
  qed
qed

lemma plus_to_space_append: "plus_to_space (xs @ ys) = plus_to_space xs @ plus_to_space ys"
  by (simp add: plus_to_space_def)

lemma serialize_byte_decode:
  assumes "b < 256"
  shows "percent_decode (plus_to_space (map code (serialize_byte b)) @ rest) = b # percent_decode rest"
proof -
  have d: "b div 16 < 16" and m: "b mod 16 < 16" using assms by simp_all
  consider "b = 32" | "b \<noteq> 32" "unreserved b" | "b \<noteq> 32" "\<not> unreserved b" by blast
  then show ?thesis
  proof cases
    case 1
    then show ?thesis by (simp add: serialize_byte_def plus_to_space_def code_def)
  next
    case 2
    then have "b \<noteq> 43" "b \<noteq> 37" by (auto simp: unreserved_def)
    with 2 assms show ?thesis
      by (simp add: serialize_byte_def plus_to_space_def code_char_of)
  next
    case 3
    have p: "code CHR ''%'' = 37" by (simp add: code_def)
    from hexUpper_facts [OF d] hexUpper_facts [OF m] 3 show ?thesis
      by (simp add: serialize_byte_def plus_to_space_def p)
  qed
qed

lemma serialize_bytes_decode:
  assumes "\<forall>b \<in> set bs. b < 256"
  shows "percent_decode (plus_to_space (map code (concat (map serialize_byte bs)))) = bs"
  using assms
proof (induction bs)
  case Nil
  then show ?case by (simp add: plus_to_space_def)
next
  case (Cons b bs)
  then show ?case by (simp add: plus_to_space_append serialize_byte_decode)
qed

lemma utf8_encode_unit_bytes: "\<forall>b \<in> set (utf8_encode_unit c). b < 256"
  using code_less_256 [of c] by (auto simp: utf8_encode_unit_def)

lemma utf8_encode_bytes: "\<forall>b \<in> set (utf8_encode s). b < 256"
  using utf8_encode_unit_bytes by (auto simp: utf8_encode_def)

lemma div64_two_bytes: "128 \<le> (n::nat) \<Longrightarrow> n < 256 \<Longrightarrow> n div 64 = 2 \<or> n div 64 = 3"
proof -
  assume a: "128 \<le> n" "n < 256"
  have "128 div 64 \<le> n div 64" using a(1) by (rule div_le_mono)
  then have "2 \<le> n div 64" by simp
  moreover have "n div 64 < 4" using a(2) by (simp add: div_less_iff_less_mult)
  ultimately show ?thesis by linarith
qed

lemma mod64_continuation: "(128 + (n::nat) mod 64) mod 64 = n mod 64"
proof -
  have "(128 + n mod 64) mod 64 = (n mod 64 + 2 * 64) mod 64" by (simp add: add.commute)
  also have "\<dots> = n mod 64 mod 64" by (rule mod_mult_self1)
  finally show ?thesis by simp
qed

lemma mod32_lead: "(n::nat) div 64 = 2 \<or> n div 64 = 3 \<Longrightarrow> (192 + n div 64) mod 32 = n div 64"
  by auto

lemma dec_ascii:
  "b \<le> 127 \<Longrightarrow> utf8_decode_from 0 0 128 191 (b # bs) = b # utf8_decode_from 0 0 128 191 bs"
  by (subst utf8_decode_from.simps(2)) simp

lemma dec_lead2:
  "194 \<le> b \<Longrightarrow> b \<le> 223 \<Longrightarrow>
   utf8_decode_from 0 0 128 191 (b # bs) = utf8_decode_from (b mod 32) 1 128 191 bs"
  by (subst utf8_decode_from.simps(2)) simp

lemma dec_cont1:
  "128 \<le> b \<Longrightarrow> b \<le> 191 \<Longrightarrow>
   utf8_decode_from cp 1 128 191 (b # bs) = (cp * 64 + b mod 64) # utf8_decode_from 0 0 128 191 bs"
  by (subst utf8_decode_from.simps(2)) simp

declare utf8_decode_from.simps [simp del]

lemma utf8_decode_unit:
  "utf8_decode_from 0 0 128 191 (utf8_encode_unit c @ rest) = code c # utf8_decode_from 0 0 128 191 rest"
proof (cases "code c < 128")
  case True
  then show ?thesis by (simp add: utf8_encode_unit_def dec_ascii)
next
  case False
  let ?n = "code c"
  have r: "128 \<le> ?n" "?n < 256" using False code_less_256 [of c] by simp_all
  then have hi: "?n div 64 = 2 \<or> ?n div 64 = 3" by (rule div64_two_bytes)
  have b1: "194 \<le> 192 + ?n div 64" "192 + ?n div 64 \<le> 223" using hi by auto
  have b2: "128 \<le> 128 + ?n mod 64" "128 + ?n mod 64 \<le> 191" by simp_all
  have v: "?n div 64 * 64 + ?n mod 64 = ?n" by simp
  have "utf8_decode_from 0 0 128 191 (utf8_encode_unit c @ rest)
          = utf8_decode_from 0 0 128 191 ((192 + ?n div 64) # (128 + ?n mod 64) # rest)"
    using False by (simp add: utf8_encode_unit_def)
  also have "\<dots> = utf8_decode_from ((192 + ?n div 64) mod 32) 1 128 191 ((128 + ?n mod 64) # rest)"
    using b1 by (rule dec_lead2)
  also have "\<dots> = (((192 + ?n div 64) mod 32) * 64 + (128 + ?n mod 64) mod 64)
                       # utf8_decode_from 0 0 128 191 rest"
    using b2 by (rule dec_cont1)
  also have "((192 + ?n div 64) mod 32) * 64 + (128 + ?n mod 64) mod 64 = ?n"
    unfolding mod32_lead [OF hi] mod64_continuation by (rule v)
  finally show ?thesis .
qed

lemma utf8_decode_from_encode: "utf8_decode_from 0 0 128 191 (utf8_encode s) = map code s"
proof (induction s)
  case Nil
  show ?case by (simp add: utf8_encode_def utf8_decode_from.simps(1))
next
  case (Cons c s)
  have "utf8_encode (c # s) = utf8_encode_unit c @ utf8_encode s" by (simp add: utf8_encode_def)
  with Cons show ?case by (simp add: utf8_decode_unit)
qed

lemma utf8_decode_encode: "utf8_decode (utf8_encode s) = units_of s"
proof -
  have "concat (map utf16_units (map code s)) = map code s"
  proof (induction s)
    case Nil
    then show ?case by simp
  next
    case (Cons c s)
    have "code c < 65536" using code_less_256 [of c] by linarith
    with Cons show ?case by (simp add: utf16_units_def)
  qed
  then show ?thesis by (simp add: utf8_decode_def utf8_decode_from_encode units_of_def)
qed

lemma utf8_encode_ascii:
  assumes "\<forall>ch \<in> set s. code ch < 128"
  shows "utf8_encode s = map code s"
  using assms by (induction s) (simp_all add: utf8_encode_def utf8_encode_unit_def)

lemma serialize_bytes_safe: "list_all query_safe (serialize_bytes s)"
  using utf8_encode_bytes [of s] serialize_byte_safe
  by (auto simp: serialize_bytes_def list_all_iff)

lemma parse_field: "utf8_decode (percent_decode (plus_to_space (map code (serialize_bytes s)))) = units_of s"
  by (simp add: serialize_bytes_def serialize_bytes_decode utf8_encode_bytes utf8_decode_encode)

lemma split_on_none: "d \<notin> set bs \<Longrightarrow> split_on d bs = [bs]"
  by (induction bs) auto

lemma split_on_first: "d \<notin> set xs \<Longrightarrow> split_on d (xs @ d # ys) = xs # split_on d ys"
  by (induction xs) auto

lemma takeWhile_until: "d \<notin> set xs \<Longrightarrow> takeWhile (\<lambda>b. b \<noteq> d) (xs @ d # ys) = xs"
  by (induction xs) auto

lemma dropWhile_until: "d \<notin> set xs \<Longrightarrow> dropWhile (\<lambda>b. b \<noteq> d) (xs @ d # ys) = d # ys"
  by (induction xs) auto

lemma parse_sequence_pair:
  "parse_sequence (map code (serialize_bytes n) @ 61 # map code (serialize_bytes v)) = (units_of n, units_of v)"
proof -
  have "61 \<notin> set (map code (serialize_bytes n))"
    using serialize_bytes_safe [of n] by (auto simp: list_all_iff query_safe_def)
  then have tw: "takeWhile (\<lambda>b. b \<noteq> 61) (map code (serialize_bytes n) @ 61 # map code (serialize_bytes v))
                  = map code (serialize_bytes n)"
    and dw: "dropWhile (\<lambda>b. b \<noteq> 61) (map code (serialize_bytes n) @ 61 # map code (serialize_bytes v))
                  = 61 # map code (serialize_bytes v)"
    by (rule takeWhile_until, rule dropWhile_until)
  show ?thesis unfolding parse_sequence_def Let_def tw dw by (simp add: parse_field)
qed

lemma URLSearchParams_pairs:
  "URLSearchParams (CHR ''?'' # serialize_bytes n1 @ ''='' @ serialize_bytes v1 @ ''&''
                      @ serialize_bytes n2 @ ''='' @ serialize_bytes v2)
     = [(units_of n1, units_of v1), (units_of n2, units_of v2)]"
proof -
  let ?q = "serialize_bytes n1 @ ''='' @ serialize_bytes v1 @ ''&'' @ serialize_bytes n2 @ ''='' @ serialize_bytes v2"
  let ?s1 = "map code (serialize_bytes n1) @ 61 # map code (serialize_bytes v1)"
  let ?s2 = "map code (serialize_bytes n2) @ 61 # map code (serialize_bytes v2)"
  have safe: "\<forall>ch \<in> set (serialize_bytes x). code ch < 128 \<and> code ch \<noteq> 38" for x
    using serialize_bytes_safe [of x] by (auto simp: list_all_iff query_safe_def)
  have c1: "code CHR ''='' = 61" and c2: "code CHR ''&'' = 38" by (simp_all add: code_def)
  have "\<forall>ch \<in> set ?q. code ch < 128" using safe by (auto simp: c1 c2)
  then have "utf8_encode ?q = map code ?q" by (rule utf8_encode_ascii)
  also have "\<dots> = ?s1 @ 38 # ?s2" by (simp add: c1 c2)
  finally have enc: "utf8_encode ?q = ?s1 @ 38 # ?s2" .
  have n1: "38 \<notin> set ?s1" and n2: "38 \<notin> set ?s2" using safe by auto
  have sp: "split_on 38 (utf8_encode ?q) = [?s1, ?s2]"
    unfolding enc split_on_first [OF n1] split_on_none [OF n2] ..
  have "URLSearchParams (CHR ''?'' # ?q) = urlencoded_parse (utf8_encode ?q)"
    by (simp add: URLSearchParams_def)
  also have "\<dots> = map parse_sequence (filter (\<lambda>bytes. bytes \<noteq> []) [?s1, ?s2])"
    unfolding urlencoded_parse_def sp ..
  also have "\<dots> = [(units_of n1, units_of v1), (units_of n2, units_of v2)]"
    by (simp add: parse_sequence_pair)
  finally show ?thesis .
qed

lemma location_search_query:
  assumes "CHR ''?'' \<notin> set origin" "CHR ''#'' \<notin> set origin" "CHR ''#'' \<notin> set q" "q \<noteq> []"
  shows "location_search (origin @ ''/verify?'' @ q) = CHR ''?'' # q"
proof -
  have nohash: "\<forall>c \<in> set (origin @ ''/verify?'' @ q). c \<noteq> CHR ''#''" using assms by auto
  then have tw: "takeWhile (\<lambda>c. c \<noteq> CHR ''#'') (origin @ ''/verify?'' @ q) = origin @ ''/verify?'' @ q"
    by (simp only: takeWhile_eq_all_conv)
  have "CHR ''?'' \<notin> set (origin @ ''/verify'')" using assms by simp
  then have "dropWhile (\<lambda>c. c \<noteq> CHR ''?'') ((origin @ ''/verify'') @ CHR ''?'' # q) = CHR ''?'' # q"
    by (rule dropWhile_until)
  then have dw: "dropWhile (\<lambda>c. c \<noteq> CHR ''?'') (origin @ ''/verify?'' @ q) = CHR ''?'' # q" by simp
  show ?thesis unfolding location_search_def Let_def tw dw using assms(4) by (cases q) simp_all
qed

lemma serialize_keys:
  "serialize_bytes ''address'' = ''address''" "serialize_bytes ''credentialId'' = ''credentialId''"
  by code_simp+

lemma serialize_empty: "serialize_bytes [] = []"
  by (simp add: serialize_bytes_def utf8_encode_def)

lemma generate_ok:
  assumes "a \<noteq> []" "c \<noteq> []" "isValidWalletAddress (trim a)"
  shows "generateVerificationUrl a c baseUrl windowOrigin
           = Inr (orElse baseUrl windowOrigin @ ''/verify?'' @
                  serialize_bytes ''address'' @ ''='' @ serialize_bytes (trim a) @ ''&'' @
                  serialize_bytes ''credentialId'' @ ''='' @ serialize_bytes (trim c))"
  using assms by (simp add: generateVerificationUrl_def Let_def)

lemma key_units:
  "units_of ''address'' \<noteq> units_of ''credentialId''"
  "units_of ''type'' \<noteq> units_of ''address''" "units_of ''type'' \<noteq> units_of ''credentialId''"
  "units_of ''issuer'' \<noteq> units_of ''address''" "units_of ''issuer'' \<noteq> units_of ''credentialId''"
  by (simp_all add: units_of_def)

lemma get_param_pairs:
  "get_param [(units_of ''address'', x), (units_of ''credentialId'', y)] ''address'' = Some x"
  "get_param [(units_of ''address'', x), (units_of ''credentialId'', y)] ''credentialId'' = Some y"
  "get_param [(units_of ''address'', x), (units_of ''credentialId'', y)] ''type'' = None"
  "get_param [(units_of ''address'', x), (units_of ''credentialId'', y)] ''issuer'' = None"
  using key_units by (simp_all add: get_param_def)

lemma trim_whitespace: "list_all isWhiteSpace c \<Longrightarrow> trim c = []"
proof -
  assume "list_all isWhiteSpace c"
  then have dw: "dropWhile isWhiteSpace c = []" by (simp add: list_all_iff)
  show ?thesis unfolding trim_def dw by simp
qed

text \<open>
  C1, as the program has it. For every wallet address \<open>a\<close> and credential id \<open>c\<close> that pass
  \<open>isValidWalletAddress\<close> and \<open>isValidCredentialId\<close>, and an origin without \<open>?\<close> and \<open>#\<close>,
  \<open>generateVerificationUrl a c\<close> succeeds, and parsing the query string of its URL as
  \<open>parseUrlParams\<close> does yields the trimmed inputs: address \<open>trim a\<close> and credentialId
  \<open>trim c\<close> (so \<open>a\<close> and \<open>c\<close> themselves when they carry no surrounding white space), with no
  type and no issuer.
\<close>

theorem verification_url_round_trip:
  assumes "isValidWalletAddress a" and "isValidCredentialId c"
    and "CHR ''?'' \<notin> set (orElse baseUrl windowOrigin)"
    and "CHR ''#'' \<notin> set (orElse baseUrl windowOrigin)"
  shows "\<exists>url. generateVerificationUrl a c baseUrl windowOrigin = Inr url
           \<and> parseUrlParams (Some (location_search url))
               = \<lparr>param_address = Some (units_of (trim a)),
                  param_credentialId = Some (units_of (trim c)),
                  param_type = None, param_issuer = None\<rparr>"
proof -
  let ?q = "serialize_bytes ''address'' @ ''='' @ serialize_bytes (trim a) @ ''&'' @
            serialize_bytes ''credentialId'' @ ''='' @ serialize_bytes (trim c)"
  let ?url = "orElse baseUrl windowOrigin @ ''/verify?'' @ ?q"
  have a: "a \<noteq> []" "trim a \<noteq> []" "isValidWalletAddress (trim a)"
  proof -
    from assms(1) show "a \<noteq> []" by (auto simp: isValidWalletAddress_def)
    from assms(1) show "trim a \<noteq> []" by (rule valid_wallet_trim_nonempty)
    from assms(1) show "isValidWalletAddress (trim a)" by (simp only: isValidWalletAddress_trim)
  qed
  have c: "c \<noteq> []" "trim c \<noteq> []"
  proof -
    from assms(2) show "c \<noteq> []" by (auto simp: isValidCredentialId_def)
    from assms(2) show "trim c \<noteq> []" by (rule valid_id_trim_nonempty)
  qed
  have gen: "generateVerificationUrl a c baseUrl windowOrigin = Inr ?url"
    using a(1) c(1) a(3) by (rule generate_ok)
  have safe: "\<forall>ch \<in> set (serialize_bytes x). ch \<noteq> CHR ''#''" for x
    using serialize_bytes_safe [of x] by (auto simp: list_all_iff query_safe_def code_def)
  have nohash: "CHR ''#'' \<notin> set ?q" using safe by auto
  have ne: "?q \<noteq> []" by simp
  have search: "location_search ?url = CHR ''?'' # ?q"
    using assms(3,4) nohash ne by (rule location_search_query)
  have params: "URLSearchParams (CHR ''?'' # ?q)
                  = [(units_of ''address'', units_of (trim a)), (units_of ''credentialId'', units_of (trim c))]"
    by (rule URLSearchParams_pairs)
  have u: "units_of (trim a) \<noteq> []" "units_of (trim c) \<noteq> []"
    using a(2) c(2) by (simp_all add: units_of_def)
  have "parseUrlParams (Some (location_search ?url))
               = \<lparr>param_address = Some (units_of (trim a)),
                  param_credentialId = Some (units_of (trim c)),
                  param_type = None, param_issuer = None\<rparr>"
    unfolding search parseUrlParams_def option.case Let_def params get_param_pairs
    using u by (simp add: orUndefined_def)
  with gen show ?thesis by blast
qed

theorem verification_url_round_trip_witness:
  "isValidWalletAddress '' 0xAB12'' \<and> isValidCredentialId ''cert 123 ''
   \<and> trim '' 0xAB12'' = ''0xAB12'' \<and> trim ''cert 123 '' = ''cert 123''
   \<and> (\<exists>url. generateVerificationUrl '' 0xAB12'' ''cert 123 '' None ''https://credvault.app'' = Inr url
          \<and> parseUrlParams (Some (location_search url))
               = \<lparr>param_address = Some (units_of ''0xAB12''),
                  param_credentialId = Some (units_of ''cert 123''),
                  param_type = None, param_issuer = None\<rparr>)"
proof -
  have v: "isValidWalletAddress '' 0xAB12''" "isValidCredentialId ''cert 123 ''" by code_simp+
  have t: "trim '' 0xAB12'' = ''0xAB12''" "trim ''cert 123 '' = ''cert 123''" by code_simp+
  have o: "CHR ''?'' \<notin> set (orElse None ''https://credvault.app'')"
    "CHR ''#'' \<notin> set (orElse None ''https://credvault.app'')"
    by (simp_all add: orElse_def)
  from verification_url_round_trip [OF v o] v t show ?thesis by simp
qed

text \<open>
  C1 as stated fails: the address \<open>0xAB12\<close> with a leading space passes the validator,
  which trims before it checks, and the generated URL carries the trimmed address, so the
  parsed address is not the input.
\<close>

theorem verification_url_round_trip_counterexample:
  "isValidWalletAddress '' 0xAB12'' \<and> isValidCredentialId ''cert-123''
   \<and> generateVerificationUrl '' 0xAB12'' ''cert-123'' None ''https://credvault.app''
       = Inr ''https://credvault.app/verify?address=0xAB12&credentialId=cert-123''
   \<and> param_address (parseUrlParams (Some (location_search
          ''https://credvault.app/verify?address=0xAB12&credentialId=cert-123'')))
       = Some (units_of ''0xAB12'')
   \<and> units_of ''0xAB12'' \<noteq> units_of '' 0xAB12''"
proof -
  have v: "isValidWalletAddress '' 0xAB12'' \<and> isValidCredentialId ''cert-123''" by code_simp
  have g: "generateVerificationUrl '' 0xAB12'' ''cert-123'' None ''https://credvault.app''
       = Inr ''https://credvault.app/verify?address=0xAB12&credentialId=cert-123''" by code_simp
  have s: "location_search ''https://credvault.app/verify?address=0xAB12&credentialId=cert-123''
       = ''?address=0xAB12&credentialId=cert-123''" by code_simp
  have p: "param_address (parseUrlParams (Some ''?address=0xAB12&credentialId=cert-123''))
       = Some (units_of ''0xAB12'')"
    by (simp add: parseUrlParams_def URLSearchParams_def urlencoded_parse_def parse_sequence_def
          utf8_encode_def utf8_encode_unit_def code_def plus_to_space_def utf8_decode_def
          dec_ascii utf8_decode_from.simps(1) utf16_units_def get_param_def units_of_def
          orUndefined_def Let_def)
  have d: "units_of ''0xAB12'' \<noteq> units_of '' 0xAB12''" by (simp add: units_of_def)
  from v g p d show ?thesis unfolding s by blast
qed

text \<open>
  C4. \<open>generateVerificationUrl\<close> fails with \<open>MissingField\<close> when either argument is empty;
  with both non-empty it fails with \<open>InvalidWalletAddress\<close> when the trimmed address does not
  pass the wallet validator (the same as the untrimmed address not passing it); and with
  both non-empty and a valid wallet it succeeds for every credential id: the id is not
  validated.
\<close>

theorem generateVerificationUrl_errors:
  "(a = [] \<or> c = [] \<longrightarrow> generateVerificationUrl a c baseUrl windowOrigin = Inl MissingField)
   \<and> (a \<noteq> [] \<and> c \<noteq> [] \<and> \<not> isValidWalletAddress (trim a)
        \<longrightarrow> generateVerificationUrl a c baseUrl windowOrigin = Inl InvalidWalletAddress)
   \<and> (a \<noteq> [] \<and> c \<noteq> [] \<and> isValidWalletAddress (trim a)
        \<longrightarrow> (\<exists>url. generateVerificationUrl a c baseUrl windowOrigin = Inr url))
   \<and> isValidWalletAddress (trim a) = isValidWalletAddress a"
proof -
  have ok: "\<exists>url. generateVerificationUrl a c baseUrl windowOrigin = Inr url"
    if "a \<noteq> []" "c \<noteq> []" "isValidWalletAddress (trim a)"
    using generate_ok [OF that] by blast
  show ?thesis
    using ok by (auto simp: generateVerificationUrl_def Let_def isValidWalletAddress_trim)
qed

theorem generateVerificationUrl_errors_witness:
  "generateVerificationUrl [] ''cert-123'' None ''https://credvault.app'' = Inl MissingField
   \<and> generateVerificationUrl ''0xAB12'' [] None ''https://credvault.app'' = Inl MissingField
   \<and> \<not> isValidWalletAddress ''0xZZ''
   \<and> generateVerificationUrl ''0xZZ'' ''cert-123'' None ''https://credvault.app'' = Inl InvalidWalletAddress
   \<and> isValidWalletAddress ''0xAB12''
   \<and> \<not> isValidCredentialId (replicate 101 CHR ''a'')
   \<and> (\<exists>url. generateVerificationUrl ''0xAB12'' (replicate 101 CHR ''a'') None ''https://credvault.app''
              = Inr url)"
proof -
  have bad: "\<not> isValidWalletAddress ''0xZZ''" and good: "isValidWalletAddress ''0xAB12''" by code_simp+
  have t0: "trim ''0xZZ'' = ''0xZZ''" and t1: "trim ''0xAB12'' = ''0xAB12''" by code_simp+
  have long: "\<not> isValidCredentialId (replicate 101 CHR ''a'')"
  proof -
    have "\<not> isWhiteSpace CHR ''a''" by (simp add: isWhiteSpace_def code_def)
    then have "trim (replicate 101 CHR ''a'') = replicate 101 CHR ''a''"
      by (simp add: trim_def dropWhile_replicate)
    then show ?thesis by (simp add: isValidCredentialId_def)
  qed
  have ne: "replicate 101 CHR ''a'' \<noteq> []" by simp
  note t = generateVerificationUrl_errors [of _ _ None "''https://credvault.app''"]
  from t [of "[]" "''cert-123''"]
  have 1: "generateVerificationUrl [] ''cert-123'' None ''https://credvault.app'' = Inl MissingField" by simp
  from t [of "''0xAB12''" "[]"]
  have 2: "generateVerificationUrl ''0xAB12'' [] None ''https://credvault.app'' = Inl MissingField" by simp
  from t [of "''0xZZ''" "''cert-123''"] bad
  have 3: "generateVerificationUrl ''0xZZ'' ''cert-123'' None ''https://credvault.app'' = Inl InvalidWalletAddress"
    unfolding t0 by simp
  from t [of "''0xAB12''" "replicate 101 CHR ''a''"] good ne
  have 4: "\<exists>url. generateVerificationUrl ''0xAB12'' (replicate 101 CHR ''a'') None ''https://credvault.app''
              = Inr url" unfolding t1 by simp
  from 1 2 3 4 bad good long show ?thesis by blast
qed

text \<open>
  C10. \<open>generateVerificationUrl\<close> fails with \<open>MissingField\<close> exactly when a raw argument is
  the empty string. For a valid wallet address and a non-empty credential id made of white
  space only, the call succeeds, the URL ends with \<open>&credentialId=\<close>, and the credentialId
  parameter of its query string is the empty string.
\<close>

theorem whitespace_credential_id:
  "(generateVerificationUrl a c baseUrl windowOrigin = Inl MissingField \<longleftrightarrow> a = [] \<or> c = [])
   \<and> (isValidWalletAddress a \<and> c \<noteq> [] \<and> list_all isWhiteSpace c \<longrightarrow>
        generateVerificationUrl a c baseUrl windowOrigin
          = Inr (orElse baseUrl windowOrigin @ ''/verify?address='' @ serialize_bytes (trim a)
                 @ ''&credentialId='')
        \<and> get_param (URLSearchParams (''?address='' @ serialize_bytes (trim a) @ ''&credentialId=''))
              ''credentialId'' = Some [])"
proof -
  have missing: "generateVerificationUrl a c baseUrl windowOrigin = Inl MissingField \<longleftrightarrow> a = [] \<or> c = []"
    by (auto simp: generateVerificationUrl_def Let_def)
  have ws: "generateVerificationUrl a c baseUrl windowOrigin
          = Inr (orElse baseUrl windowOrigin @ ''/verify?address='' @ serialize_bytes (trim a)
                 @ ''&credentialId='')
        \<and> get_param (URLSearchParams (''?address='' @ serialize_bytes (trim a) @ ''&credentialId=''))
              ''credentialId'' = Some []"
    if v: "isValidWalletAddress a" and ne: "c \<noteq> []" and w: "list_all isWhiteSpace c"
  proof -
    from v have a: "a \<noteq> []" by (auto simp: isValidWalletAddress_def)
    from v have va: "isValidWalletAddress (trim a)" by (simp only: isValidWalletAddress_trim)
    from w have t: "trim c = []" by (rule trim_whitespace)
    have gen: "generateVerificationUrl a c baseUrl windowOrigin
          = Inr (orElse baseUrl windowOrigin @ ''/verify?address='' @ serialize_bytes (trim a)
                 @ ''&credentialId='')"
      unfolding generate_ok [OF a ne va] t serialize_keys serialize_empty by simp
    have "URLSearchParams (CHR ''?'' # serialize_bytes ''address'' @ ''='' @ serialize_bytes (trim a) @ ''&''
                      @ serialize_bytes ''credentialId'' @ ''='' @ serialize_bytes [])
            = [(units_of ''address'', units_of (trim a)), (units_of ''credentialId'', units_of [])]"
      by (rule URLSearchParams_pairs)
    then have "URLSearchParams (''?address='' @ serialize_bytes (trim a) @ ''&credentialId='')
            = [(units_of ''address'', units_of (trim a)), (units_of ''credentialId'', [])]"
      unfolding serialize_keys serialize_empty by (simp add: units_of_def)
    then have "get_param (URLSearchParams (''?address='' @ serialize_bytes (trim a) @ ''&credentialId=''))
              ''credentialId'' = Some []"
      by (simp only: get_param_pairs)
    with gen show ?thesis by blast
  qed
  from missing ws show ?thesis by blast
qed

theorem whitespace_credential_id_witness:
  "isValidWalletAddress ''0xAB12'' \<and> list_all isWhiteSpace ''   ''
   \<and> generateVerificationUrl ''0xAB12'' ''   '' None ''https://credvault.app''
       = Inr ''https://credvault.app/verify?address=0xAB12&credentialId=''
   \<and> get_param (URLSearchParams ''?address=0xAB12&credentialId='') ''credentialId'' = Some []
   \<and> generateVerificationUrl ''0xAB12'' [] None ''https://credvault.app'' = Inl MissingField"
proof -
  have v: "isValidWalletAddress ''0xAB12''" and w: "list_all isWhiteSpace ''   ''" by code_simp+
  have t: "trim ''0xAB12'' = ''0xAB12''" and s: "serialize_bytes ''0xAB12'' = ''0xAB12''" by code_simp+
  have o: "orElse None ''https://credvault.app'' = ''https://credvault.app''" by (simp add: orElse_def)
  note x = whitespace_credential_id [of "''0xAB12''" _ None "''https://credvault.app''"]
  from x [of "''   ''"] v w
  have 1: "generateVerificationUrl ''0xAB12'' ''   '' None ''https://credvault.app''
       = Inr ''https://credvault.app/verify?address=0xAB12&credentialId=''
    \<and> get_param (URLSearchParams ''?address=0xAB12&credentialId='') ''credentialId'' = Some []"
    unfolding t s o by simp
  from x [of "[]"]
  have 2: "generateVerificationUrl ''0xAB12'' [] None ''https://credvault.app'' = Inl MissingField" by simp
  from 1 2 v w show ?thesis by blast
qed

end
